theory Spec2Isabelle
  imports Main
begin

section \<open>Outcomes of a run\<close>

text \<open>
  The program is one Python module. A call either returns a value, raises an exception, or
  (the repair loop) runs forever. The exceptions that the module can raise are listed in
  \<open>py_exception\<close>; the constructor's argument, where there is one, is what the exception's
  message carries.

  The program keeps its costs in a table of the data-frame library. This development
  follows the program on tables whose cells are all present and are 64-bit integers, which
  is how the library stores them. For other texts the library returns a table as well:
  when a line is shorter than the widest line, or there is no line at all, it fills the
  missing cells with the floating-point value NaN, and when a cost is outside the 64-bit
  range it changes the type of the column. The program goes on with such a table in
  floating-point or mixed arithmetic. That is not followed here: the embedding gives
  \<open>Not_int64\<close> with the cells of the table the library returns, \<open>None\<close> for NaN. It is
  not an exception of the program, and it does not say that the program stops.
\<close>

datatype py_exception =
    ValueError_literal string   \<comment> \<open>\<open>int(text)\<close>: invalid literal, the message quotes \<open>text\<close>\<close>
  | ValueError_digit_limit nat  \<comment> \<open>\<open>int(text)\<close>: more digits than the limit, the message gives their number\<close>
  | ValueError_shape            \<comment> \<open>the table constructor: data and labels disagree in shape\<close>
  | ValueError_index string     \<comment> \<open>\<open>list.index(x)\<close>: \<open>x\<close> is not in the list\<close>
  | IndexError                  \<comment> \<open>list index out of range\<close>

datatype stop = Raised py_exception | Not_int64 "int option list list"

section \<open>Strings: \<open>splitlines\<close>, \<open>split(',')\<close> and \<open>int\<close>\<close>

text \<open>
  Characters are code points below 256. \<open>str.splitlines\<close> breaks a string at
  \<open>\n\<close>, \<open>\r\<close>, \<open>\r\n\<close>, \<open>\v\<close>, \<open>\f\<close>, the separators \<open>0x1C\<close> to \<open>0x1E\<close> and \<open>0x85\<close>;
  the breaks are dropped and no empty last line is produced.
\<close>

definition is_linebreak :: "char \<Rightarrow> bool" where
  "is_linebreak c \<longleftrightarrow>
     c \<in> set [CHR 0x0A, CHR 0x0B, CHR 0x0C, CHR 0x0D, CHR 0x1C, CHR 0x1D, CHR 0x1E, CHR 0x85]"

fun splitlines_from :: "string \<Rightarrow> string \<Rightarrow> string list" where
  "splitlines_from cur [] = (if cur = [] then [] else [cur])"
| "splitlines_from cur [c] =
     (if is_linebreak c then [cur] else [cur @ [c]])"
| "splitlines_from cur (c # d # cs) =
     (if c = CHR 0x0D \<and> d = CHR 0x0A then cur # splitlines_from [] cs
      else if is_linebreak c then cur # splitlines_from [] (d # cs)
      else splitlines_from (cur @ [c]) (d # cs))"

definition splitlines :: "string \<Rightarrow> string list" where
  "splitlines s = splitlines_from [] s"

text \<open>\<open>line.split(',')\<close>: every comma separates; the empty string gives one empty token.\<close>

fun split_from :: "string \<Rightarrow> string \<Rightarrow> string list" where
  "split_from cur [] = [cur]"
| "split_from cur (c # cs) =
     (if c = CHR '','' then cur # split_from [] cs else split_from (cur @ [c]) cs)"

definition split_comma :: "string \<Rightarrow> string list" where
  "split_comma s = split_from [] s"

text \<open>
  \<open>int(text)\<close> in base ten, in the order in which the interpreter reads the text. White
  space in front is skipped: tab, line feed, vertical tab, form feed, carriage return and
  blank, and of the code points from 128 on the two that are white space, \<open>0x85\<close> and
  \<open>0xA0\<close>; the separators \<open>0x1C\<close> to \<open>0x1F\<close> are not skipped. One sign may follow. Then
  comes the run of digits and underscores: it must begin and end with a digit and have no
  two underscores in a row, otherwise the literal is invalid. A run of more than 4300
  digits, the interpreter's default limit, is refused next, with a \<open>ValueError\<close> of its own.
  Last, nothing but white space may follow the run.
\<close>

definition is_space :: "char \<Rightarrow> bool" where
  "is_space c \<longleftrightarrow>
     c \<in> set [CHR 0x09, CHR 0x0A, CHR 0x0B, CHR 0x0C, CHR 0x0D, CHR 0x20, CHR 0x85, CHR 0xA0]"

definition is_digit :: "char \<Rightarrow> bool" where
  "is_digit c \<longleftrightarrow> 48 \<le> (of_char c :: nat) \<and> (of_char c :: nat) \<le> 57"

definition digit_val :: "char \<Rightarrow> int" where
  "digit_val c = int (of_char c :: nat) - 48"

definition in_run :: "char \<Rightarrow> bool" where
  "in_run c \<longleftrightarrow> is_digit c \<or> c = CHR ''_''"

fun underscores_ok :: "string \<Rightarrow> bool" where
  "underscores_ok [] = True"
| "underscores_ok [c] = (c \<noteq> CHR ''_'')"
| "underscores_ok (c # d # cs) = (\<not> (c = CHR ''_'' \<and> d = CHR ''_'') \<and> underscores_ok (d # cs))"

definition valid_run :: "string \<Rightarrow> bool" where
  "valid_run run \<longleftrightarrow> run \<noteq> [] \<and> hd run \<noteq> CHR ''_'' \<and> underscores_ok run"

definition max_str_digits :: nat where
  "max_str_digits = 4300"

definition py_int :: "string \<Rightarrow> stop + int" where
  "py_int text =
     (let s = dropWhile is_space text;
          (neg, body) = (case s of
                           c # cs \<Rightarrow> if c = CHR ''-'' then (True, cs)
                                     else if c = CHR ''+'' then (False, cs)
                                     else (False, s)
                         | [] \<Rightarrow> (False, s));
          run = takeWhile in_run body;
          rest = dropWhile in_run body;
          ds = filter is_digit run
      in if \<not> valid_run run then Inl (Raised (ValueError_literal text))
         else if max_str_digits < length ds then Inl (Raised (ValueError_digit_limit (length ds)))
         else if dropWhile is_space rest \<noteq> [] then Inl (Raised (ValueError_literal text))
         else let n = fold (\<lambda>c acc. 10 * acc + digit_val c) ds 0
              in Inr (if neg then - n else n))"

section \<open>Parsing the matrix text\<close>

definition texttoint :: "string \<Rightarrow> stop + int" where
  "texttoint text = (if text = [] then Inr 0 else py_int text)"

text \<open>
  The table: row labels, column labels and the cells, a list of rows.
  \<open>loc df row column\<close> is the cell addressed by two labels, \<open>df.loc[row, column]\<close>.
\<close>

record dataframe =
  df_index :: "string list"
  df_columns :: "string list"
  df_values :: "int list list"

fun position :: "'a list \<Rightarrow> 'a \<Rightarrow> nat" where
  "position [] x = 0"
| "position (y # ys) x = (if y = x then 0 else Suc (position ys x))"

definition loc :: "dataframe \<Rightarrow> string \<Rightarrow> string \<Rightarrow> int" where
  "loc df row column =
     df_values df ! position (df_index df) row ! position (df_columns df) column"

text \<open>
  The table constructor of the library, for a list of rows with both label lists given.
  The number of rows must be the number of row labels and the widest row must have as many
  cells as there are column labels, otherwise it raises \<open>ValueError\<close>. Rows that are
  shorter are filled up with NaN, and with no row at all every cell is NaN. A column holds
  64-bit integers when all its cells are present and lie in the 64-bit range.
\<close>

definition in_int64 :: "int \<Rightarrow> bool" where
  "in_int64 v \<longleftrightarrow> - (2 ^ 63) \<le> v \<and> v < 2 ^ 63"

definition pad_row :: "nat \<Rightarrow> int list \<Rightarrow> int option list" where
  "pad_row n r = map Some r @ replicate (n - length r) None"

definition DataFrame :: "int list list \<Rightarrow> string list \<Rightarrow> string list \<Rightarrow> stop + dataframe" where
  "DataFrame rows idx cols =
     (if rows = [] then
        (if idx = [] \<or> cols = []
         then Inr \<lparr>df_index = idx, df_columns = cols, df_values = replicate (length idx) []\<rparr>
         else Inl (Not_int64 (replicate (length idx) (replicate (length cols) None))))
      else if fold max (map length rows) 0 \<noteq> length cols then Inl (Raised ValueError_shape)
      else if length rows \<noteq> length idx then Inl (Raised ValueError_shape)
      else if list_all (\<lambda>r. length r = length cols \<and> list_all in_int64 r) rows
        then Inr \<lparr>df_index = idx, df_columns = cols, df_values = rows\<rparr>
      else Inl (Not_int64 (map (pad_row (length cols)) rows)))"

text \<open>
  The two nested comprehensions of \<open>wrangle\<close>. \<open>cell_value\<close> is the expression computed for
  one token, \<open>texttoint(cost) if cost != '-' else 0\<close>; the first token that fails raises.
\<close>

definition cell_value :: "string \<Rightarrow> stop + int" where
  "cell_value cost = (if cost \<noteq> ''-'' then texttoint cost else Inr 0)"

fun parse_line :: "string list \<Rightarrow> stop + int list" where
  "parse_line [] = Inr []"
| "parse_line (cost # rest) =
     (case cell_value cost of
        Inl e \<Rightarrow> Inl e
      | Inr v \<Rightarrow> (case parse_line rest of Inl e \<Rightarrow> Inl e | Inr vs \<Rightarrow> Inr (v # vs)))"

fun parse_lines :: "string list list \<Rightarrow> stop + int list list" where
  "parse_lines [] = Inr []"
| "parse_lines (line # rest) =
     (case parse_line line of
        Inl e \<Rightarrow> Inl e
      | Inr r \<Rightarrow> (case parse_lines rest of Inl e \<Rightarrow> Inl e | Inr rs \<Rightarrow> Inr (r # rs)))"

definition wrangle :: "string \<Rightarrow> string list \<Rightarrow> stop + dataframe" where
  "wrangle input_network vertices_name =
     (let extracted_lines = splitlines input_network;
          lines_list = map split_comma extracted_lines
      in case parse_lines lines_list of
           Inl e \<Rightarrow> Inl e
         | Inr parsed_network \<Rightarrow> DataFrame parsed_network vertices_name vertices_name)"

section \<open>Edges of the table\<close>

text \<open>An edge is the three-element list \<open>[row, column, cost]\<close>.\<close>

type_synonym edge = "string \<times> string \<times> int"

definition edge_row :: "edge \<Rightarrow> string" where "edge_row e = fst e"
definition edge_column :: "edge \<Rightarrow> string" where "edge_column e = fst (snd e)"
definition edge_cost :: "edge \<Rightarrow> int" where "edge_cost e = snd (snd e)"

text \<open>
  \<open>get_unique_nodes\<close>: the inner loop over the columns of one row carries \<open>temp\<close> and
  \<open>seen\<close>, the outer loop over the rows carries \<open>vertices\<close> and \<open>seen\<close>. The entries of
  \<open>seen\<close> are the concatenated labels \<open>row + column\<close>.
\<close>

fun unique_columns ::
  "dataframe \<Rightarrow> string \<Rightarrow> string list \<Rightarrow> edge list \<Rightarrow> string list \<Rightarrow> edge list \<times> string list" where
  "unique_columns df row [] temp seen = (temp, seen)"
| "unique_columns df row (column # cs) temp seen =
     (if row = column then unique_columns df row cs temp seen
      else if loc df row column = 0 then unique_columns df row cs temp seen
      else if row @ column \<in> set seen \<or> column @ row \<in> set seen
        then unique_columns df row cs temp seen
      else unique_columns df row cs (temp @ [(row, column, loc df row column)])
             (seen @ [row @ column]))"

fun unique_rows ::
  "dataframe \<Rightarrow> string list \<Rightarrow> edge list list \<Rightarrow> string list \<Rightarrow> edge list list" where
  "unique_rows df [] vertices seen = vertices"
| "unique_rows df (row # rs) vertices seen =
     (case unique_columns df row (df_columns df) [] seen of
        (temp, seen') \<Rightarrow>
          unique_rows df rs (if temp \<noteq> [] then vertices @ [temp] else vertices) seen')"

definition get_unique_nodes :: "dataframe \<Rightarrow> edge list list" where
  "get_unique_nodes df = unique_rows df (df_index df) [] []"

text \<open>
  \<open>get_nodes\<close>: the same two loops without \<open>seen\<close>, then every row's edges sorted by cost.
  \<open>sorted\<close> is stable, as \<open>sort_key\<close> is.
\<close>

fun node_columns :: "dataframe \<Rightarrow> string \<Rightarrow> string list \<Rightarrow> edge list \<Rightarrow> edge list" where
  "node_columns df row [] temp = temp"
| "node_columns df row (column # cs) temp =
     (if row = column then node_columns df row cs temp
      else if loc df row column = 0 then node_columns df row cs temp
      else node_columns df row cs (temp @ [(row, column, loc df row column)]))"

fun node_rows :: "dataframe \<Rightarrow> string list \<Rightarrow> edge list list \<Rightarrow> edge list list" where
  "node_rows df [] vertices = vertices"
| "node_rows df (row # rs) vertices =
     (let temp = node_columns df row (df_columns df) []
      in node_rows df rs (if temp \<noteq> [] then vertices @ [temp] else vertices))"

definition get_nodes :: "dataframe \<Rightarrow> edge list list" where
  "get_nodes df = map (sort_key edge_cost) (node_rows df (df_index df) [])"

section \<open>The cheapest edge of every vertex, and the removal of duplicates\<close>

fun get_shortest_edges :: "edge list list \<Rightarrow> stop + edge list" where
  "get_shortest_edges [] = Inr []"
| "get_shortest_edges (line # rest) =
     (case line of
        [] \<Rightarrow> Inl (Raised IndexError)
      | e # _ \<Rightarrow> (case get_shortest_edges rest of
                    Inl x \<Rightarrow> Inl x
                  | Inr shortest_edges \<Rightarrow> Inr (e # shortest_edges)))"

text \<open>
  \<open>find_unique_node\<close> removes from the list it is iterating over. The iteration of a Python
  list is by position: each round reads \<open>edges[i]\<close> and moves on to \<open>i + 1\<close>, whatever
  happened to the list in between, and stops once \<open>i\<close> is no position of the list.
  \<open>edges.remove(edge)\<close> deletes the first element equal to \<open>edge\<close>.
\<close>

function find_unique_loop :: "edge list \<Rightarrow> nat \<Rightarrow> string list \<Rightarrow> edge list" where
  "find_unique_loop edges i selected =
     (if i < length edges then
        (let edge = edges ! i; row = edge_row edge; column = edge_column edge
         in if row @ column \<in> set selected \<or> column @ row \<in> set selected
            then find_unique_loop (remove1 edge edges) (i + 1) selected
            else find_unique_loop edges (i + 1) (selected @ [row @ column]))
      else edges)"
  by pat_completeness auto
termination
  by (relation "measure (\<lambda>(edges, i, selected). length edges - i)")
     (auto simp: length_remove1)

definition find_unique_node :: "edge list \<Rightarrow> edge list" where
  "find_unique_node edges = find_unique_loop edges 0 []"

section \<open>Connected vertices and the repair loop\<close>

text \<open>One pass of \<open>get_connected_nodes\<close> over the pairs of end points.\<close>

fun connect_pass :: "(string \<times> string) list \<Rightarrow> string list \<Rightarrow> string list" where
  "connect_pass [] connected_nodes = connected_nodes"
| "connect_pass (name # rest) connected_nodes =
     (if fst name \<notin> set connected_nodes then
        (if snd name \<notin> set connected_nodes then connect_pass rest connected_nodes
         else connect_pass rest (connected_nodes @ [fst name]))
      else
        (if snd name \<notin> set connected_nodes then connect_pass rest (connected_nodes @ [snd name])
         else connect_pass rest connected_nodes))"

definition get_connected_nodes :: "edge list \<Rightarrow> stop + string list" where
  "get_connected_nodes shortest_edges =
     (case shortest_edges of
        [] \<Rightarrow> Inl (Raised IndexError)
      | first # _ \<Rightarrow>
          (let connected_nodes = [edge_row first, edge_column first];
               edge_name = map (\<lambda>node. (edge_row node, edge_column node)) shortest_edges
           in Inr (connect_pass edge_name (connect_pass edge_name connected_nodes))))"

definition list_index :: "string list \<Rightarrow> string \<Rightarrow> stop + nat" where
  "list_index xs x =
     (if x \<in> set xs then Inr (position xs x) else Inl (Raised (ValueError_index x)))"

text \<open>
  The \<open>while\<close> loop of \<open>add_isolated_node\<close>. It need not end, so its result is an option:
  \<open>None\<close> is a run that never returns. The parameter \<open>connected_nodes\<close> of the source is
  overwritten before it is read and is left out of the loop.
\<close>

partial_function (option) isolated_loop ::
  "string list \<Rightarrow> edge list list \<Rightarrow> edge list \<Rightarrow> string list \<Rightarrow> (stop + edge list) option" where
  "isolated_loop node_names vertices shortest_edges isolated_nodes =
     (if isolated_nodes = [] then Some (Inr shortest_edges)
      else
        (case list_index node_names (hd isolated_nodes) of
           Inl e \<Rightarrow> Some (Inl e)
         | Inr k \<Rightarrow>
             if k < length vertices \<and> 1 < length (vertices ! k) then
               (case get_connected_nodes (shortest_edges @ [vertices ! k ! 1]) of
                  Inl e \<Rightarrow> Some (Inl e)
                | Inr connected_nodes \<Rightarrow>
                    isolated_loop node_names vertices (shortest_edges @ [vertices ! k ! 1])
                      (filter (\<lambda>x. x \<notin> set connected_nodes) node_names))
             else Some (Inl (Raised IndexError))))"

declare isolated_loop.simps [code]

text \<open>
  \<open>add_isolated_node\<close> returns the number of edges it has appended; the list
  \<open>shortest_edges\<close> is changed in place, so the embedding returns it as well.
\<close>

definition add_isolated_node ::
  "string list \<Rightarrow> edge list list \<Rightarrow> edge list \<Rightarrow> string list \<Rightarrow> string list
     \<Rightarrow> (stop + edge list \<times> int) option" where
  "add_isolated_node node_names vertices shortest_edges isolated_nodes connected_nodes =
     (case isolated_loop node_names vertices shortest_edges isolated_nodes of
        None \<Rightarrow> None
      | Some (Inl e) \<Rightarrow> Some (Inl e)
      | Some (Inr final_edges) \<Rightarrow>
          Some (Inr (final_edges, int (length final_edges) - int (length shortest_edges))))"

section \<open>Costs and the orchestrator\<close>

text \<open>
  The cells that the table hands out are 64-bit integers, and so are the sums and
  differences of them: an addition or subtraction that leaves the 64-bit range wraps
  around. \<open>wrap_int64\<close> is the wrapped value of an integer. In \<open>network_cost\<close> the sum
  starts as the Python integer 0 and is a 64-bit integer after the first addition.
\<close>

definition wrap_int64 :: "int \<Rightarrow> int" where
  "wrap_int64 v = (v + 2 ^ 63) mod 2 ^ 64 - 2 ^ 63"

definition network_cost :: "edge list \<Rightarrow> int" where
  "network_cost graph = fold (\<lambda>edge sum. wrap_int64 (sum + edge_cost edge)) graph 0"

definition vertices_name :: "string list" where
  "vertices_name = [''A'', ''B'', ''C'', ''D'', ''E'', ''F'', ''G'']"

text \<open>
  \<open>maximum_saving\<close>. The list \<open>shortest_edges\<close> that \<open>network_cost\<close> reads at the end is the
  one \<open>find_unique_node\<close> and \<open>add_isolated_node\<close> have changed in place. The printing of
  \<open>min_cost\<close> is left out.
\<close>

definition maximum_saving :: "string \<Rightarrow> (stop + int) option" where
  "maximum_saving input_network =
     (case wrangle input_network vertices_name of
        Inl e \<Rightarrow> Some (Inl e)
      | Inr df \<Rightarrow>
          (let all_nodes = get_nodes df in
           case get_shortest_edges all_nodes of
             Inl e \<Rightarrow> Some (Inl e)
           | Inr candidates \<Rightarrow>
               (let shortest_edges = find_unique_node candidates in
                case get_connected_nodes shortest_edges of
                  Inl e \<Rightarrow> Some (Inl e)
                | Inr connected_nodes \<Rightarrow>
                    (let isolated_nodes = filter (\<lambda>x. x \<notin> set connected_nodes) vertices_name in
                     case add_isolated_node vertices_name all_nodes shortest_edges
                            isolated_nodes connected_nodes of
                       None \<Rightarrow> None
                     | Some (Inl e) \<Rightarrow> Some (Inl e)
                     | Some (Inr (repaired_edges, added)) \<Rightarrow>
                         (let unique_nodes = get_unique_nodes df;
                              all_unique_edges = concat unique_nodes;
                              max_cost = network_cost all_unique_edges;
                              min_cost = network_cost repaired_edges
                          in Some (Inr (wrap_int64 (max_cost - min_cost))))))))"

section \<open>The edge lists in the words of the specification\<close>

text \<open>
  The definitions of this section are not translations of the program. They say, in the
  words of the specification, what the two scans of the table are to produce, and the
  theorems below compare the program with them.

  \<open>eligible_cells df row cs\<close> are the cells of one row, in the order of the columns \<open>cs\<close>,
  that are not the row's own and hold a non-zero cost, as triples of this vertex, the other
  vertex and the cost; \<open>incident_edges\<close> takes all the columns of the table.
  \<open>first_of_pair\<close> walks through a list of edges and keeps an edge unless its pair of
  vertices, in this or in the other order, was recorded before; \<open>recorded_after\<close> is the
  record it ends with. \<open>same_pair r c\<close> holds for the edges between \<open>r\<close> and \<open>c\<close>.
  \<open>unambiguous_labels\<close> says that two labels written one after the other can be read
  in one way only, as is the case for labels of one length.
\<close>

definition eligible_cells :: "dataframe \<Rightarrow> string \<Rightarrow> string list \<Rightarrow> edge list" where
  "eligible_cells df row cs =
     map (\<lambda>column. (row, column, loc df row column))
       (filter (\<lambda>column. row \<noteq> column \<and> loc df row column \<noteq> 0) cs)"

definition incident_edges :: "dataframe \<Rightarrow> string \<Rightarrow> edge list" where
  "incident_edges df row = eligible_cells df row (df_columns df)"

fun recorded_after :: "edge list \<Rightarrow> (string \<times> string) list \<Rightarrow> (string \<times> string) list" where
  "recorded_after [] recorded = recorded"
| "recorded_after (e # es) recorded =
     (if (edge_row e, edge_column e) \<in> set recorded \<or> (edge_column e, edge_row e) \<in> set recorded
      then recorded_after es recorded
      else recorded_after es ((edge_row e, edge_column e) # recorded))"

fun first_of_pair :: "edge list \<Rightarrow> (string \<times> string) list \<Rightarrow> edge list" where
  "first_of_pair [] recorded = []"
| "first_of_pair (e # es) recorded =
     (if (edge_row e, edge_column e) \<in> set recorded \<or> (edge_column e, edge_row e) \<in> set recorded
      then first_of_pair es recorded
      else e # first_of_pair es ((edge_row e, edge_column e) # recorded))"

definition same_pair :: "string \<Rightarrow> string \<Rightarrow> edge \<Rightarrow> bool" where
  "same_pair r c e \<longleftrightarrow>
     edge_row e = r \<and> edge_column e = c \<or> edge_row e = c \<and> edge_column e = r"

definition labels :: "dataframe \<Rightarrow> string set" where
  "labels df = set (df_index df) \<union> set (df_columns df)"

definition unambiguous_labels :: "dataframe \<Rightarrow> bool" where
  "unambiguous_labels df \<longleftrightarrow>
     (\<forall>a \<in> labels df. \<forall>b \<in> labels df. \<forall>c \<in> labels df. \<forall>d \<in> labels df.
        a @ b = c @ d \<longrightarrow> a = c \<and> b = d)"

section \<open>Concrete networks\<close>

text \<open>The seven-vertex network of the specification's test scenario.\<close>

definition scenario_text :: string where
  "scenario_text =
     ''-,14,10,19,-,-,-\<newline>14,-,-,15,18,-,-\<newline>10,-,-,26,-,29,-\<newline>19,15,26,-,16,17,21\<newline>-,18,-,16,-,-,9\<newline>-,-,29,17,-,-,25\<newline>-,-,-,21,9,25,-''"

text \<open>
  A tree: \<open>A-B\<close> and \<open>C-D\<close> cost 1, \<open>A-C\<close> costs 2, and \<open>E\<close>, \<open>F\<close>, \<open>G\<close> hang on \<open>A\<close>
  at cost 3.
\<close>

definition tree_text :: string where
  "tree_text =
     ''-,1,2,-,3,3,3\<newline>1,-,-,-,-,-,-\<newline>2,-,-,1,-,-,-\<newline>-,-,1,-,-,-,-\<newline>3,-,-,-,-,-,-\<newline>3,-,-,-,-,-,-\<newline>3,-,-,-,-,-,-''"

text \<open>A path \<open>A-B-C-D-E-F-G\<close> whose edges cost 1 and 5 in turn.\<close>

definition path_text :: string where
  "path_text =
     ''-,1,-,-,-,-,-\<newline>1,-,5,-,-,-,-\<newline>-,5,-,1,-,-,-\<newline>-,-,1,-,5,-,-\<newline>-,-,-,5,-,1,-\<newline>-,-,-,-,1,-,5\<newline>-,-,-,-,-,5,-''"


text \<open>No edge at all.\<close>

definition no_edge_text :: string where
  "no_edge_text =
     ''-,-,-,-,-,-,-\<newline>-,-,-,-,-,-,-\<newline>-,-,-,-,-,-,-\<newline>-,-,-,-,-,-,-\<newline>-,-,-,-,-,-,-\<newline>-,-,-,-,-,-,-\<newline>-,-,-,-,-,-,-''"

text \<open>
  The scenario with the token \<open>x\<close> in its first row, second cell, and with the token \<open>x\<close> in
  its fourth row, sixth cell; and a network of two vertices.
\<close>

definition first_bad_row_text :: string where
  "first_bad_row_text =
     ''-,x,10,19,-,-,-\<newline>14,-,-,15,18,-,-\<newline>10,-,-,26,-,29,-\<newline>19,15,26,-,16,17,21\<newline>-,18,-,16,-,-,9\<newline>-,-,29,17,-,-,25\<newline>-,-,-,21,9,25,-''"

definition fourth_bad_row_text :: string where
  "fourth_bad_row_text =
     ''-,14,10,19,-,-,-\<newline>14,-,-,15,18,-,-\<newline>10,-,-,26,-,29,-\<newline>19,15,26,-,16,x,21\<newline>-,18,-,16,-,-,9\<newline>-,-,29,17,-,-,25\<newline>-,-,-,21,9,25,-''"

definition two_vertex_text :: string where
  "two_vertex_text = ''-,5\<newline>5,-''"


definition frame :: "int list list \<Rightarrow> dataframe" where
  "frame rows = \<lparr>df_index = vertices_name, df_columns = vertices_name, df_values = rows\<rparr>"

definition scenario_rows :: "int list list" where
  "scenario_rows =
     [[0, 14, 10, 19, 0, 0, 0], [14, 0, 0, 15, 18, 0, 0], [10, 0, 0, 26, 0, 29, 0],
      [19, 15, 26, 0, 16, 17, 21], [0, 18, 0, 16, 0, 0, 9], [0, 0, 29, 17, 0, 0, 25],
      [0, 0, 0, 21, 9, 25, 0]]"

definition tree_rows :: "int list list" where
  "tree_rows =
     [[0, 1, 2, 0, 3, 3, 3], [1, 0, 0, 0, 0, 0, 0], [2, 0, 0, 1, 0, 0, 0],
      [0, 0, 1, 0, 0, 0, 0], [3, 0, 0, 0, 0, 0, 0], [3, 0, 0, 0, 0, 0, 0],
      [3, 0, 0, 0, 0, 0, 0]]"

definition tree_candidates :: "edge list" where
  "tree_candidates =
     [(''A'', ''B'', 1), (''B'', ''A'', 1), (''C'', ''D'', 1), (''D'', ''C'', 1),
      (''E'', ''A'', 3), (''F'', ''A'', 3), (''G'', ''A'', 3)]"

definition path_rows :: "int list list" where
  "path_rows =
     [[0, 1, 0, 0, 0, 0, 0], [1, 0, 5, 0, 0, 0, 0], [0, 5, 0, 1, 0, 0, 0],
      [0, 0, 1, 0, 5, 0, 0], [0, 0, 0, 5, 0, 1, 0], [0, 0, 0, 0, 1, 0, 5],
      [0, 0, 0, 0, 0, 5, 0]]"

text \<open>The sorted edge lists of the path, as \<open>get_nodes\<close> builds them.\<close>

definition path_nodes :: "edge list list" where
  "path_nodes =
     [[(''A'', ''B'', 1)],
      [(''B'', ''A'', 1), (''B'', ''C'', 5)],
      [(''C'', ''D'', 1), (''C'', ''B'', 5)],
      [(''D'', ''C'', 1), (''D'', ''E'', 5)],
      [(''E'', ''F'', 1), (''E'', ''D'', 5)],
      [(''F'', ''E'', 1), (''F'', ''G'', 5)],
      [(''G'', ''F'', 5)]]"

text \<open>
  The edge list of the path when the repair loop starts, and after its first two rounds,
  which append \<open>C-B\<close> and \<open>E-D\<close>.
\<close>

definition path_start :: "edge list" where
  "path_start =
     [(''A'', ''B'', 1), (''C'', ''D'', 1), (''D'', ''C'', 1), (''E'', ''F'', 1),
      (''G'', ''F'', 5)]"

definition path_stuck :: "edge list" where
  "path_stuck =
     [(''A'', ''B'', 1), (''C'', ''D'', 1), (''D'', ''C'', 1), (''E'', ''F'', 1),
      (''G'', ''F'', 5), (''C'', ''B'', 5), (''E'', ''D'', 5)]"




definition zero_rows :: "int list list" where
  "zero_rows = replicate 7 (replicate 7 0)"

text \<open>
  A star at \<open>A\<close> with edges of cost 1, and three more edges \<open>B-C\<close>, \<open>D-E\<close>, \<open>F-G\<close> of
  cost \<open>2^62\<close> each. Every cost is a 64-bit integer; the three large ones add up to more
  than \<open>2^63\<close>.
\<close>

definition wide_text :: string where
  "wide_text =
     ''-,1,1,1,1,1,1\<newline>1,-,4611686018427387904,-,-,-,-\<newline>1,4611686018427387904,-,-,-,-,-\<newline>1,-,-,-,4611686018427387904,-,-\<newline>1,-,-,4611686018427387904,-,-,-\<newline>1,-,-,-,-,-,4611686018427387904\<newline>1,-,-,-,-,4611686018427387904,-''"

definition wide_rows :: "int list list" where
  "wide_rows =
     [[0, 1, 1, 1, 1, 1, 1],
      [1, 0, 4611686018427387904, 0, 0, 0, 0],
      [1, 4611686018427387904, 0, 0, 0, 0, 0],
      [1, 0, 0, 0, 4611686018427387904, 0, 0],
      [1, 0, 0, 4611686018427387904, 0, 0, 0],
      [1, 0, 0, 0, 0, 0, 4611686018427387904],
      [1, 0, 0, 0, 0, 4611686018427387904, 0]]"

definition wide_repaired :: "edge list" where
  "wide_repaired =
     [(''A'', ''B'', 1), (''C'', ''A'', 1), (''D'', ''A'', 1), (''E'', ''A'', 1),
      (''F'', ''A'', 1), (''G'', ''A'', 1)]"

text \<open>
  A star at \<open>B\<close> with edges to \<open>C\<close>, \<open>D\<close>, \<open>E\<close>, \<open>F\<close>, \<open>G\<close> of cost 1 to 5; the vertex \<open>A\<close>
  has no edge. \<open>star_nodes\<close> are the sorted edge lists, one for each vertex that has an
  edge, and \<open>star_start\<close> is the edge list when the repair loop starts.
\<close>

definition star_text :: string where
  "star_text =
     ''-,-,-,-,-,-,-\<newline>-,-,1,2,3,4,5\<newline>-,1,-,-,-,-,-\<newline>-,2,-,-,-,-,-\<newline>-,3,-,-,-,-,-\<newline>-,4,-,-,-,-,-\<newline>-,5,-,-,-,-,-''"

definition star_rows :: "int list list" where
  "star_rows =
     [[0, 0, 0, 0, 0, 0, 0], [0, 0, 1, 2, 3, 4, 5], [0, 1, 0, 0, 0, 0, 0],
      [0, 2, 0, 0, 0, 0, 0], [0, 3, 0, 0, 0, 0, 0], [0, 4, 0, 0, 0, 0, 0],
      [0, 5, 0, 0, 0, 0, 0]]"

definition star_nodes :: "edge list list" where
  "star_nodes =
     [[(''B'', ''C'', 1), (''B'', ''D'', 2), (''B'', ''E'', 3), (''B'', ''F'', 4), (''B'', ''G'', 5)],
      [(''C'', ''B'', 1)], [(''D'', ''B'', 2)], [(''E'', ''B'', 3)], [(''F'', ''B'', 4)],
      [(''G'', ''B'', 5)]]"

definition star_start :: "edge list" where
  "star_start =
     [(''B'', ''C'', 1), (''D'', ''B'', 2), (''E'', ''B'', 3), (''F'', ''B'', 4), (''G'', ''B'', 5)]"

text \<open>The scenario with a last line of six cells instead of seven.\<close>

definition ragged_text :: string where
  "ragged_text =
     ''-,14,10,19,-,-,-\<newline>14,-,-,15,18,-,-\<newline>10,-,-,26,-,29,-\<newline>19,15,26,-,16,17,21\<newline>-,18,-,16,-,-,9\<newline>-,-,29,17,-,-,25\<newline>-,-,-,21,9,25''"

text \<open>
  Four vertices with the labels \<open>A\<close>, \<open>AB\<close>, \<open>B\<close>, \<open>BB\<close> and two edges, \<open>A-BB\<close> of cost 1
  and \<open>AB-B\<close> of cost 2.
\<close>

definition four_names :: "string list" where
  "four_names = [''A'', ''AB'', ''B'', ''BB'']"

definition four_text :: string where
  "four_text = ''-,-,-,1\<newline>-,-,2,-\<newline>-,2,-,-\<newline>1,-,-,-''"

definition four_frame :: dataframe where
  "four_frame =
     \<lparr>df_index = four_names, df_columns = four_names,
      df_values = [[0, 0, 0, 1], [0, 0, 2, 0], [0, 2, 0, 0], [1, 0, 0, 0]]\<rparr>"

section \<open>Costs\<close>

lemma wrap_int64_id: "in_int64 v \<Longrightarrow> wrap_int64 v = v"
  by (simp add: wrap_int64_def in_int64_def)

lemma wrap_int64_add: "wrap_int64 (wrap_int64 a + b) = wrap_int64 (a + b)"
  by (simp add: wrap_int64_def mod_simps algebra_simps)

lemma wrap_int64_diff: "wrap_int64 (wrap_int64 a - wrap_int64 b) = wrap_int64 (a - b)"
  by (simp add: wrap_int64_def mod_simps algebra_simps)

lemma fold_cost:
  "fold (\<lambda>edge sum. wrap_int64 (sum + edge_cost edge)) graph (wrap_int64 a)
     = wrap_int64 (a + sum_list (map edge_cost graph))"
  by (induction graph arbitrary: a) (simp_all add: wrap_int64_add add.assoc)

lemma network_cost_sum: "network_cost graph = wrap_int64 (sum_list (map edge_cost graph))"
  using fold_cost[of graph 0] by (simp add: network_cost_def wrap_int64_id in_int64_def)

lemma scenario_parsed: "wrangle scenario_text vertices_name = Inr (frame scenario_rows)"
  by code_simp

lemma scenario_unique_cost: "network_cost (concat (get_unique_nodes (frame scenario_rows))) = 219"
  by code_simp

text \<open>
  C9. For the seven-vertex scenario of the specification, labels \<open>A\<close> to \<open>G\<close>, the matrix
  text parses, and the costs of the distinct edges of the parsed table, summed by
  \<open>network_cost\<close> over \<open>get_unique_nodes\<close>, are 219.
\<close>

theorem scenario_total_cost:
  "\<exists>df. wrangle scenario_text vertices_name = Inr df
        \<and> network_cost (concat (get_unique_nodes df)) = 219"
  using scenario_parsed scenario_unique_cost by blast

section \<open>The saving is a difference of two sums\<close>

lemma scenario_saving: "maximum_saving scenario_text = Some (Inr 138)"
  by code_simp

text \<open>
  C1, as the program has it. Let the text be parsed into a table of 64-bit integers with
  all its cells. Whenever \<open>maximum_saving\<close> returns, the value is the total cost minus the
  minimal cost in 64-bit arithmetic: the total is the sum of the costs of the distinct
  edges (the flattened result of \<open>get_unique_nodes\<close>), the minimal cost is the sum of the
  costs of the edge list that \<open>find_unique_node\<close> produced and \<open>add_isolated_node\<close>
  repaired, and the value is their difference wrapped into the 64-bit range. It is the
  difference itself whenever the difference lies in that range.
\<close>

theorem maximum_saving_difference:
  assumes "wrangle text vertices_name = Inr df"
    and "maximum_saving text = Some (Inr s)"
  shows "\<exists>candidates connected repaired added.
           get_shortest_edges (get_nodes df) = Inr candidates \<and>
           get_connected_nodes (find_unique_node candidates) = Inr connected \<and>
           add_isolated_node vertices_name (get_nodes df) (find_unique_node candidates)
             (filter (\<lambda>x. x \<notin> set connected) vertices_name) connected
             = Some (Inr (repaired, added)) \<and>
           s = wrap_int64 (sum_list (map edge_cost (concat (get_unique_nodes df)))
                           - sum_list (map edge_cost repaired)) \<and>
           (in_int64 (sum_list (map edge_cost (concat (get_unique_nodes df)))
                      - sum_list (map edge_cost repaired)) \<longrightarrow>
            s = sum_list (map edge_cost (concat (get_unique_nodes df)))
                - sum_list (map edge_cost repaired))"
  using assms
  by (auto simp: maximum_saving_def Let_def network_cost_sum wrap_int64_diff wrap_int64_id
      split: sum.splits option.splits)

lemma scenario_difference_in_range:
  "in_int64 (sum_list (map edge_cost (concat (get_unique_nodes (frame scenario_rows)))) - 81)"
  by code_simp

theorem maximum_saving_difference_witness:
  "wrangle scenario_text vertices_name = Inr (frame scenario_rows) \<and>
   maximum_saving scenario_text = Some (Inr 138) \<and>
   (\<exists>candidates connected repaired added.
      get_shortest_edges (get_nodes (frame scenario_rows)) = Inr candidates \<and>
      get_connected_nodes (find_unique_node candidates) = Inr connected \<and>
      add_isolated_node vertices_name (get_nodes (frame scenario_rows))
        (find_unique_node candidates)
        (filter (\<lambda>x. x \<notin> set connected) vertices_name) connected
        = Some (Inr (repaired, added)) \<and>
      138 = wrap_int64 (sum_list (map edge_cost (concat (get_unique_nodes (frame scenario_rows))))
                        - sum_list (map edge_cost repaired)))"
  using scenario_parsed scenario_saving
    maximum_saving_difference[OF scenario_parsed scenario_saving]
  by blast

text \<open>
  On the wide network the program completes and the two sums are 13835058055282163718
  and 6, but the value returned is not their difference: the additions leave the 64-bit
  range and wrap around.
\<close>

theorem wide_saving_wraps:
  "wrangle wide_text vertices_name = Inr (frame wide_rows) \<and>
   map_sum id find_unique_node (get_shortest_edges (get_nodes (frame wide_rows)))
     = Inr wide_repaired \<and>
   get_connected_nodes wide_repaired = Inr [''A'', ''B'', ''C'', ''D'', ''E'', ''F'', ''G''] \<and>
   add_isolated_node vertices_name (get_nodes (frame wide_rows)) wide_repaired []
       [''A'', ''B'', ''C'', ''D'', ''E'', ''F'', ''G'']
     = Some (Inr (wide_repaired, 0)) \<and>
   sum_list (map edge_cost (concat (get_unique_nodes (frame wide_rows))))
     = 13835058055282163718 \<and>
   sum_list (map edge_cost wide_repaired) = 6 \<and>
   maximum_saving wide_text = Some (Inr (- 4611686018427387904))"
  by code_simp

section \<open>Removal of duplicates on the tree\<close>

text \<open>
  C3. On the tree network the candidates hold \<open>A-B\<close>, \<open>B-A\<close>, \<open>C-D\<close>, \<open>D-C\<close>. Removing
  \<open>B-A\<close> moves \<open>C-D\<close> into the position just read, so the iteration never looks at it, and
  \<open>D-C\<close> is then kept as well: the pair of \<open>C\<close> and \<open>D\<close> stands twice in the result of
  \<open>find_unique_node\<close>.
\<close>

theorem find_unique_node_keeps_duplicate:
  "wrangle tree_text vertices_name = Inr (frame tree_rows) \<and>
   get_shortest_edges (get_nodes (frame tree_rows)) = Inr tree_candidates \<and>
   find_unique_node tree_candidates =
     [(''A'', ''B'', 1), (''C'', ''D'', 1), (''D'', ''C'', 1),
      (''E'', ''A'', 3), (''F'', ''A'', 3), (''G'', ''A'', 3)]"
  by code_simp

section \<open>A table without edges\<close>

lemma node_columns_none:
  "\<forall>c \<in> set cs. c \<noteq> row \<longrightarrow> loc df row c = 0 \<Longrightarrow> node_columns df row cs temp = temp"
  by (induction cs arbitrary: temp) auto

lemma node_rows_none:
  "\<forall>r \<in> set rs. \<forall>c \<in> set (df_columns df). c \<noteq> r \<longrightarrow> loc df r c = 0
   \<Longrightarrow> node_rows df rs vertices = vertices"
  by (induction rs arbitrary: vertices) (auto simp: node_columns_none)

lemma get_nodes_none:
  "\<forall>r \<in> set (df_index df). \<forall>c \<in> set (df_columns df). c \<noteq> r \<longrightarrow> loc df r c = 0
   \<Longrightarrow> get_nodes df = []"
  by (simp add: get_nodes_def node_rows_none)

lemma find_unique_node_Nil: "find_unique_node [] = []"
  by (simp add: find_unique_node_def)

lemma no_edge_parsed: "wrangle no_edge_text vertices_name = Inr (frame zero_rows)"
  by code_simp

lemma zero_rows_cells:
  "\<forall>r \<in> set (df_index (frame zero_rows)). \<forall>c \<in> set (df_columns (frame zero_rows)).
     c \<noteq> r \<longrightarrow> loc (frame zero_rows) r c = 0"
  by code_simp

text \<open>
  C10. \<open>get_connected_nodes\<close> on the empty list reads the first element of an empty list
  and raises \<open>IndexError\<close>. When the parsed table has no non-zero cell off the diagonal,
  no vertex has an edge, the candidate list is empty and stays empty, and
  \<open>maximum_saving\<close> ends with that \<open>IndexError\<close> instead of returning 0.
\<close>

theorem no_edge_index_error:
  "get_connected_nodes [] = Inl (Raised IndexError) \<and>
   (wrangle text vertices_name = Inr df \<longrightarrow>
    (\<forall>r \<in> set (df_index df). \<forall>c \<in> set (df_columns df). c \<noteq> r \<longrightarrow> loc df r c = 0) \<longrightarrow>
    get_shortest_edges (get_nodes df) = Inr [] \<and> find_unique_node [] = [] \<and>
    maximum_saving text = Some (Inl (Raised IndexError)))"
  by (auto simp: get_connected_nodes_def maximum_saving_def get_nodes_none find_unique_node_Nil)

theorem no_edge_index_error_witness:
  "wrangle no_edge_text vertices_name = Inr (frame zero_rows) \<and>
   get_shortest_edges (get_nodes (frame zero_rows)) = Inr [] \<and>
   maximum_saving no_edge_text = Some (Inl (Raised IndexError))"
  using no_edge_index_error[of no_edge_text "frame zero_rows"] no_edge_parsed zero_rows_cells
  by blast

section \<open>The repair loop on the path\<close>

lemma connect_pass_append:
  "connect_pass (xs @ ys) cn = connect_pass ys (connect_pass xs cn)"
  by (induction xs arbitrary: cn) auto

lemma connect_pass_replicate:
  "fst p \<notin> set cn \<Longrightarrow> snd p \<notin> set cn \<Longrightarrow> connect_pass (replicate k p) cn = cn"
  by (induction k) auto

lemma path_stuck_connected:
  "get_connected_nodes (path_stuck @ replicate (Suc k) (''F'', ''G'', 5))
     = Inr [''A'', ''B'', ''C'', ''D'', ''E'']"
  by (simp add: get_connected_nodes_def path_stuck_def connect_pass_append
      connect_pass_replicate edge_row_def edge_column_def del: replicate.simps)

lemma path_stuck_forever:
  "isolated_loop vertices_name path_nodes (path_stuck @ replicate k (''F'', ''G'', 5)) [''F'', ''G''] = None"
proof -
  have never: "\<not> (n = vertices_name \<and> v = path_nodes \<and> i = [''F'', ''G''] \<and>
        (\<exists>k. s = path_stuck @ replicate k (''F'', ''G'', 5)))"
    if "isolated_loop n v s i = Some y" for n v s i y
  proof (rule isolated_loop.raw_induct[where P = "\<lambda>n v s i y.
        \<not> (n = vertices_name \<and> v = path_nodes \<and> i = [''F'', ''G''] \<and>
        (\<exists>k. s = path_stuck @ replicate k (''F'', ''G'', 5)))", OF _ that])
    fix loop :: "string list \<Rightarrow> edge list list \<Rightarrow> edge list \<Rightarrow> string list \<Rightarrow> (stop + edge list) option"
    fix n v s i y
    assume IH: "\<And>n v s i y. loop n v s i = Some y \<Longrightarrow>
        \<not> (n = vertices_name \<and> v = path_nodes \<and> i = [''F'', ''G''] \<and>
        (\<exists>k. s = path_stuck @ replicate k (''F'', ''G'', 5)))"
    assume body: "(if i = [] then Some (Inr s)
      else case list_index n (hd i) of Inl e \<Rightarrow> Some (Inl e)
           | Inr k \<Rightarrow>
               if k < length v \<and> 1 < length (v ! k)
               then case get_connected_nodes (s @ [v ! k ! 1]) of
                    Inl e \<Rightarrow> Some (Inl e)
                    | Inr connected_nodes \<Rightarrow>
                        loop n v (s @ [v ! k ! 1])
                         (filter (\<lambda>x. x \<notin> set connected_nodes) n)
               else Some (Inl (Raised IndexError))) = Some y"
    show "\<not> (n = vertices_name \<and> v = path_nodes \<and> i = [''F'', ''G''] \<and>
        (\<exists>k. s = path_stuck @ replicate k (''F'', ''G'', 5)))"
    proof
      assume "n = vertices_name \<and> v = path_nodes \<and> i = [''F'', ''G''] \<and>
        (\<exists>k. s = path_stuck @ replicate k (''F'', ''G'', 5))"
      then obtain k where s: "s = path_stuck @ replicate k (''F'', ''G'', 5)"
        and n: "n = vertices_name" and v: "v = path_nodes" and i: "i = [''F'', ''G'']"
        by blast
      have idx: "list_index vertices_name ''F'' = Inr 5"
        by (simp add: list_index_def vertices_name_def)
      have edge: "path_nodes ! 5 ! 1 = (''F'', ''G'', 5)" "5 < length path_nodes"
          "1 < length (path_nodes ! 5)"
        by (simp_all add: path_nodes_def)
      have app: "(path_stuck @ replicate k (''F'', ''G'', 5)) @ [(''F'', ''G'', 5)]
          = path_stuck @ replicate (Suc k) (''F'', ''G'', 5)"
        by (simp add: replicate_append_same)
      have iso: "filter (\<lambda>x. x \<notin> set [''A'', ''B'', ''C'', ''D'', ''E'']) vertices_name
          = [''F'', ''G'']"
        by (simp add: vertices_name_def)
      from body have "loop vertices_name path_nodes
          (path_stuck @ replicate (Suc k) (''F'', ''G'', 5)) [''F'', ''G''] = Some y"
        unfolding s n v i list.sel idx sum.case edge app path_stuck_connected iso
        using edge by simp
      then show False
        using IH by blast
    qed
  qed
  show ?thesis
  proof (cases "isolated_loop vertices_name path_nodes
          (path_stuck @ replicate k (''F'', ''G'', 5)) [''F'', ''G'']")
    case None
    then show ?thesis .
  next
    case (Some y)
    from never[OF Some] show ?thesis by blast
  qed
qed


lemma path_parsed: "wrangle path_text vertices_name = Inr (frame path_rows)"
  by code_simp

lemma path_get_nodes: "get_nodes (frame path_rows) = path_nodes"
  by code_simp

lemma path_shortest: "get_shortest_edges path_nodes = Inr
   [(''A'', ''B'', 1), (''B'', ''A'', 1), (''C'', ''D'', 1), (''D'', ''C'', 1),
    (''E'', ''F'', 1), (''F'', ''E'', 1), (''G'', ''F'', 5)]"
  by code_simp

lemma path_unique: "find_unique_node
   [(''A'', ''B'', 1), (''B'', ''A'', 1), (''C'', ''D'', 1), (''D'', ''C'', 1),
    (''E'', ''F'', 1), (''F'', ''E'', 1), (''G'', ''F'', 5)] = path_start"
  by code_simp

lemma path_start_connected: "get_connected_nodes path_start = Inr [''A'', ''B'']"
  by code_simp

lemma path_isolated:
  "filter (\<lambda>x. x \<notin> set [''A'', ''B'']) vertices_name = [''C'', ''D'', ''E'', ''F'', ''G'']"
  by code_simp

lemma path_round_1:
  "isolated_loop vertices_name path_nodes path_start [''C'', ''D'', ''E'', ''F'', ''G'']
   = isolated_loop vertices_name path_nodes (path_start @ [(''C'', ''B'', 5)]) [''E'', ''F'', ''G'']"
proof -
  have idx: "list_index vertices_name ''C'' = Inr 2"
    by code_simp
  have edge: "path_nodes ! 2 ! 1 = (''C'', ''B'', 5)" "path_nodes ! 2 ! Suc 0 = (''C'', ''B'', 5)"
      "2 < length path_nodes" "Suc 0 < length (path_nodes ! 2)"
    by (simp_all add: path_nodes_def)
  have con: "get_connected_nodes (path_start @ [(''C'', ''B'', 5)]) = Inr [''A'', ''B'', ''C'', ''D'']"
    by code_simp
  have iso: "filter (\<lambda>x. x \<notin> set [''A'', ''B'', ''C'', ''D'']) vertices_name = [''E'', ''F'', ''G'']"
    by code_simp
  show ?thesis
    by (subst isolated_loop.simps) (simp add: idx edge con iso del: set_simps)
qed

lemma path_round_2:
  "isolated_loop vertices_name path_nodes (path_start @ [(''C'', ''B'', 5)]) [''E'', ''F'', ''G'']
   = isolated_loop vertices_name path_nodes path_stuck [''F'', ''G'']"
proof -
  have idx: "list_index vertices_name ''E'' = Inr 4"
    by code_simp
  have edge: "path_nodes ! 4 ! 1 = (''E'', ''D'', 5)" "path_nodes ! 4 ! Suc 0 = (''E'', ''D'', 5)"
      "4 < length path_nodes" "Suc 0 < length (path_nodes ! 4)"
    by (simp_all add: path_nodes_def)
  have app: "(path_start @ [(''C'', ''B'', 5)]) @ [(''E'', ''D'', 5)] = path_stuck"
    by (simp add: path_start_def path_stuck_def)
  have con: "get_connected_nodes path_stuck = Inr [''A'', ''B'', ''C'', ''D'', ''E'']"
    by code_simp
  have iso: "filter (\<lambda>x. x \<notin> set [''A'', ''B'', ''C'', ''D'', ''E'']) vertices_name = [''F'', ''G'']"
    by code_simp
  show ?thesis
    by (subst isolated_loop.simps) (simp add: idx edge app con iso del: set_simps append_assoc)
qed

text \<open>
  C4. Every vertex of the path has an incident edge, and the path is connected. The repair
  loop does not terminate on it: it appends \<open>C-B\<close>, then \<open>E-D\<close>; from then on \<open>F\<close> is the
  first isolated vertex, the two passes of \<open>get_connected_nodes\<close> do not reach \<open>F\<close> although
  the edge \<open>E-F\<close> is in the list, and every further round appends \<open>F\<close>'s second edge \<open>F-G\<close>
  again. \<open>add_isolated_node\<close> and \<open>maximum_saving\<close> never return.
\<close>

theorem path_diverges:
  "wrangle path_text vertices_name = Inr (frame path_rows) \<and>
   get_nodes (frame path_rows) = path_nodes \<and>
   length path_nodes = length vertices_name \<and> [] \<notin> set path_nodes \<and>
   add_isolated_node vertices_name path_nodes path_start
     [''C'', ''D'', ''E'', ''F'', ''G''] [''A'', ''B''] = None \<and>
   maximum_saving path_text = None"
proof -
  have loop: "isolated_loop vertices_name path_nodes path_start
      [''C'', ''D'', ''E'', ''F'', ''G''] = None"
    using path_round_1 path_round_2 path_stuck_forever[of 0] by simp
  then have "maximum_saving path_text = None"
    by (simp add: maximum_saving_def path_parsed path_get_nodes path_shortest path_unique
        path_start_connected path_isolated add_isolated_node_def del: set_simps)
  moreover have "length path_nodes = length vertices_name" "[] \<notin> set path_nodes"
    by (simp_all add: path_nodes_def vertices_name_def)
  ultimately show ?thesis
    using loop path_parsed path_get_nodes by (simp add: add_isolated_node_def)
qed

section \<open>The cheapest edge of every vertex\<close>

lemma node_columns_eq: "node_columns df row cs temp = temp @ eligible_cells df row cs"
  by (induction cs arbitrary: temp) (auto simp: eligible_cells_def)

lemma node_rows_eq:
  "node_rows df rs vertices = vertices @ filter (\<lambda>temp. temp \<noteq> []) (map (incident_edges df) rs)"
  by (induction rs arbitrary: vertices) (auto simp: Let_def node_columns_eq incident_edges_def)

lemma get_nodes_eq:
  "get_nodes df = map (sort_key edge_cost)
     (filter (\<lambda>temp. temp \<noteq> []) (map (incident_edges df) (df_index df)))"
  by (simp add: get_nodes_def node_rows_eq)

lemma get_shortest_edges_hd:
  "\<forall>line \<in> set ls. line \<noteq> [] \<Longrightarrow> get_shortest_edges ls = Inr (map hd ls)"
  by (induction ls) (auto split: list.splits)

lemma sort_key_Nil_iff: "sort_key f xs = [] \<longleftrightarrow> xs = []"
  by (metis length_sort length_0_conv)

lemma hd_insort_key:
  "hd (insort_key f x ys) = (if ys = [] \<or> f x \<le> f (hd ys) then x else hd ys)"
  by (cases ys) auto

lemma hd_sort_key_first_least:
  "es \<noteq> [] \<Longrightarrow>
   \<exists>before after. es = before @ hd (sort_key f es) # after \<and>
      (\<forall>x \<in> set before. f (hd (sort_key f es)) < f x) \<and>
      (\<forall>x \<in> set after. f (hd (sort_key f es)) \<le> f x)"
proof (induction es)
  case Nil
  then show ?case by simp
next
  case (Cons x xs)
  show ?case
  proof (cases "xs = []")
    case True
    then have "x # xs = [] @ hd (sort_key f (x # xs)) # []"
      by simp
    then show ?thesis
      by (metis empty_iff list.set(1))
  next
    case False
    from Cons.IH[OF False] obtain before after where
      xs: "xs = before @ hd (sort_key f xs) # after"
      and lt: "\<forall>y \<in> set before. f (hd (sort_key f xs)) < f y"
      and le: "\<forall>y \<in> set after. f (hd (sort_key f xs)) \<le> f y"
      by blast
    let ?m = "hd (sort_key f xs)"
    have srt: "sort_key f xs \<noteq> []"
      using False by (simp add: sort_key_Nil_iff)
    show ?thesis
    proof (cases "f x \<le> f ?m")
      case True
      then have hd: "hd (sort_key f (x # xs)) = x"
        by (simp add: hd_insort_key)
      have "\<forall>y \<in> set xs. f x \<le> f y"
      proof
        fix y assume "y \<in> set xs"
        then have "y \<in> set before \<or> y = ?m \<or> y \<in> set after"
          by (subst (asm) xs) auto
        with lt le True show "f x \<le> f y"
          by (auto intro: order_trans less_imp_le)
      qed
      then have "x # xs = [] @ x # xs \<and> (\<forall>y \<in> set []. f x < f y) \<and> (\<forall>y \<in> set xs. f x \<le> f y)"
        by simp
      then show ?thesis
        unfolding hd by blast
    next
      case False
      then have hd: "hd (sort_key f (x # xs)) = ?m"
        using srt by (simp add: hd_insort_key)
      have "x # xs = (x # before) @ ?m # after"
        using xs by simp
      moreover have "\<forall>y \<in> set (x # before). f ?m < f y"
        using lt False by auto
      ultimately show ?thesis
        unfolding hd using le by blast
    qed
  qed
qed

text \<open>
  C5. The candidates that \<open>get_shortest_edges\<close> takes from \<open>get_nodes\<close> are, in the order
  of the row labels, one edge for every vertex that has an incident edge and none for the
  others. A vertex has an incident edge when its row has a non-zero cell off the diagonal.
  The edge taken for a vertex starts at that vertex and is the head of its incident edges
  sorted by cost: among the incident edges in column order every edge before it costs
  more and every edge after it costs at least as much, so it is the cheapest one, and of
  several cheapest ones the first in column order.
\<close>

theorem cheapest_edge_candidates:
  "get_shortest_edges (get_nodes df) =
     Inr (map (\<lambda>row. hd (sort_key edge_cost (incident_edges df row)))
           (filter (\<lambda>row. incident_edges df row \<noteq> []) (df_index df))) \<and>
   (incident_edges df row \<noteq> [] \<longleftrightarrow>
      (\<exists>column \<in> set (df_columns df). row \<noteq> column \<and> loc df row column \<noteq> 0)) \<and>
   (\<forall>e \<in> set (incident_edges df row).
      edge_row e = row \<and> edge_column e \<in> set (df_columns df) \<and> edge_column e \<noteq> row \<and>
      edge_cost e = loc df row (edge_column e) \<and> edge_cost e \<noteq> 0) \<and>
   (incident_edges df row \<noteq> [] \<longrightarrow>
      (\<exists>before after.
         incident_edges df row
           = before @ hd (sort_key edge_cost (incident_edges df row)) # after \<and>
         (\<forall>e \<in> set before.
            edge_cost (hd (sort_key edge_cost (incident_edges df row))) < edge_cost e) \<and>
         (\<forall>e \<in> set after.
            edge_cost (hd (sort_key edge_cost (incident_edges df row))) \<le> edge_cost e)))"
proof (intro conjI)
  have "\<forall>line \<in> set (get_nodes df). line \<noteq> []"
    by (auto simp: get_nodes_eq sort_key_Nil_iff)
  then have "get_shortest_edges (get_nodes df) = Inr (map hd (get_nodes df))"
    by (rule get_shortest_edges_hd)
  then show "get_shortest_edges (get_nodes df) =
     Inr (map (\<lambda>row. hd (sort_key edge_cost (incident_edges df row)))
           (filter (\<lambda>row. incident_edges df row \<noteq> []) (df_index df)))"
    by (simp add: get_nodes_eq filter_map comp_def)
  show "incident_edges df row \<noteq> [] \<longleftrightarrow>
      (\<exists>column \<in> set (df_columns df). row \<noteq> column \<and> loc df row column \<noteq> 0)"
    by (auto simp: incident_edges_def eligible_cells_def filter_empty_conv)
  show "\<forall>e \<in> set (incident_edges df row).
      edge_row e = row \<and> edge_column e \<in> set (df_columns df) \<and> edge_column e \<noteq> row \<and>
      edge_cost e = loc df row (edge_column e) \<and> edge_cost e \<noteq> 0"
    by (auto simp: incident_edges_def eligible_cells_def edge_row_def edge_column_def
        edge_cost_def)
  show "incident_edges df row \<noteq> [] \<longrightarrow>
      (\<exists>before after.
         incident_edges df row
           = before @ hd (sort_key edge_cost (incident_edges df row)) # after \<and>
         (\<forall>e \<in> set before.
            edge_cost (hd (sort_key edge_cost (incident_edges df row))) < edge_cost e) \<and>
         (\<forall>e \<in> set after.
            edge_cost (hd (sort_key edge_cost (incident_edges df row))) \<le> edge_cost e))"
    using hd_sort_key_first_least[of "incident_edges df row" edge_cost] by blast
qed

lemma scenario_cheapest:
  "map (\<lambda>row. hd (sort_key edge_cost (incident_edges (frame scenario_rows) row)))
     (filter (\<lambda>row. incident_edges (frame scenario_rows) row \<noteq> [])
        (df_index (frame scenario_rows)))
   = [(''A'', ''C'', 10), (''B'', ''A'', 14), (''C'', ''A'', 10), (''D'', ''B'', 15),
      (''E'', ''G'', 9), (''F'', ''D'', 17), (''G'', ''E'', 9)]"
  by code_simp

lemma scenario_cheapest_D:
  "hd (sort_key edge_cost (incident_edges (frame scenario_rows) ''D'')) = (''D'', ''B'', 15)"
  by code_simp

lemma scenario_incident_D: "incident_edges (frame scenario_rows) ''D'' \<noteq> []"
  by code_simp

theorem cheapest_edge_candidates_witness:
  "get_shortest_edges (get_nodes (frame scenario_rows)) =
     Inr [(''A'', ''C'', 10), (''B'', ''A'', 14), (''C'', ''A'', 10), (''D'', ''B'', 15),
          (''E'', ''G'', 9), (''F'', ''D'', 17), (''G'', ''E'', 9)] \<and>
   incident_edges (frame scenario_rows) ''D'' \<noteq> [] \<and>
   (\<exists>before after.
      incident_edges (frame scenario_rows) ''D'' = before @ (''D'', ''B'', 15) # after \<and>
      (\<forall>e \<in> set before. 15 < edge_cost e) \<and> (\<forall>e \<in> set after. 15 \<le> edge_cost e))"
  using cheapest_edge_candidates[of "frame scenario_rows" "''D''"] scenario_incident_D
  unfolding scenario_cheapest scenario_cheapest_D
  by (simp add: edge_cost_def)

section \<open>The distinct edges\<close>

lemma first_of_pair_append:
  "first_of_pair (xs @ ys) R = first_of_pair xs R @ first_of_pair ys (recorded_after xs R)"
  by (induction xs arbitrary: R) auto

lemma recorded_after_append:
  "recorded_after (xs @ ys) R = recorded_after ys (recorded_after xs R)"
  by (induction xs arbitrary: R) auto

lemma first_of_pair_subset: "set (first_of_pair es R) \<subseteq> set es"
  by (induction es arbitrary: R) auto

lemma first_of_pair_count:
  "length (filter (same_pair r c) (first_of_pair es R)) =
     (if (r, c) \<in> set R \<or> (c, r) \<in> set R then 0
      else if \<exists>e \<in> set es. same_pair r c e then 1 else 0)"
proof (induction es arbitrary: R)
  case Nil
  then show ?case by simp
next
  case (Cons e es)
  let ?p = "(edge_row e, edge_column e)"
  let ?q = "(edge_column e, edge_row e)"
  have same: "same_pair r c e \<longleftrightarrow> (r, c) = ?p \<or> (r, c) = ?q"
    by (auto simp: same_pair_def)
  show ?case
  proof (cases "?p \<in> set R \<or> ?q \<in> set R")
    case True
    then have eq: "first_of_pair (e # es) R = first_of_pair es R"
      by simp
    have "\<not> same_pair r c e" if "(r, c) \<notin> set R" "(c, r) \<notin> set R"
      using that True unfolding same by auto
    then show ?thesis
      unfolding eq Cons.IH[of R] by auto
  next
    case False
    then have fop: "first_of_pair (e # es) R = e # first_of_pair es (?p # R)"
      by simp
    show ?thesis
    proof (cases "same_pair r c e")
      case True
      then have "(r, c) \<in> set (?p # R) \<or> (c, r) \<in> set (?p # R)"
        unfolding same by auto
      then have "length (filter (same_pair r c) (first_of_pair es (?p # R))) = 0"
        unfolding Cons.IH[of "?p # R"] by simp
      moreover have "(r, c) \<notin> set R" "(c, r) \<notin> set R"
        using True False unfolding same by auto
      ultimately show ?thesis
        unfolding fop using True by simp
    next
      case nsame: False
      then have "(r, c) \<noteq> ?p" "(c, r) \<noteq> ?p"
        unfolding same by auto
      then have "(r, c) \<in> set (?p # R) \<longleftrightarrow> (r, c) \<in> set R"
        "(c, r) \<in> set (?p # R) \<longleftrightarrow> (c, r) \<in> set R"
        by auto
      then show ?thesis
        unfolding fop using nsame Cons.IH[of "?p # R"] by simp
    qed
  qed
qed

lemma key_recorded:
  assumes "unambiguous_labels df" and "set R \<subseteq> labels df \<times> labels df"
    and "r \<in> labels df" and "c \<in> labels df"
  shows "r @ c \<in> (\<lambda>(a, b). a @ b) ` set R \<longleftrightarrow> (r, c) \<in> set R"
proof
  assume "r @ c \<in> (\<lambda>(a, b). a @ b) ` set R"
  then obtain a b where ab: "(a, b) \<in> set R" "r @ c = a @ b"
    by auto
  with assms(2) have "a \<in> labels df" "b \<in> labels df"
    by auto
  with assms(1,3,4) ab(2) have "r = a \<and> c = b"
    unfolding unambiguous_labels_def by blast
  with ab(1) show "(r, c) \<in> set R"
    by simp
next
  assume "(r, c) \<in> set R"
  then show "r @ c \<in> (\<lambda>(a, b). a @ b) ` set R"
    by force
qed

lemma unique_columns_eq:
  assumes "unambiguous_labels df" and "row \<in> labels df" and "set cs \<subseteq> labels df"
    and "set R \<subseteq> labels df \<times> labels df" and "set seen = (\<lambda>(a, b). a @ b) ` set R"
  shows "fst (unique_columns df row cs temp seen) = temp @ first_of_pair (eligible_cells df row cs) R \<and>
         set (snd (unique_columns df row cs temp seen))
           = (\<lambda>(a, b). a @ b) ` set (recorded_after (eligible_cells df row cs) R) \<and>
         set (recorded_after (eligible_cells df row cs) R) \<subseteq> labels df \<times> labels df"
  using assms(3-5)
proof (induction cs arbitrary: temp seen R)
  case Nil
  then show ?case by (simp add: eligible_cells_def)
next
  case (Cons column cs)
  have col: "column \<in> labels df" and cs: "set cs \<subseteq> labels df"
    using Cons.prems(1) by auto
  note key1 = key_recorded[OF assms(1) Cons.prems(2) assms(2) col]
  note key2 = key_recorded[OF assms(1) Cons.prems(2) col assms(2)]
  show ?case
  proof (cases "row = column \<or> loc df row column = 0")
    case True
    then have "eligible_cells df row (column # cs) = eligible_cells df row cs"
      by (auto simp: eligible_cells_def)
    moreover have "unique_columns df row (column # cs) temp seen = unique_columns df row cs temp seen"
      using True by auto
    ultimately show ?thesis
      using Cons.IH[OF cs Cons.prems(2,3)] by simp
  next
    case False
    then have el: "eligible_cells df row (column # cs)
        = (row, column, loc df row column) # eligible_cells df row cs"
      by (auto simp: eligible_cells_def)
    show ?thesis
    proof (cases "(row, column) \<in> set R \<or> (column, row) \<in> set R")
      case True
      then have "unique_columns df row (column # cs) temp seen = unique_columns df row cs temp seen"
        using False key1 key2 Cons.prems(3) by auto
      then show ?thesis
        using True Cons.IH[OF cs Cons.prems(2,3)]
        by (simp add: el edge_row_def edge_column_def)
    next
      case notin: False
      let ?R = "(row, column) # R"
      have step: "unique_columns df row (column # cs) temp seen
          = unique_columns df row cs (temp @ [(row, column, loc df row column)])
              (seen @ [row @ column])"
        using False notin key1 key2 Cons.prems(3) by auto
      have R': "set ?R \<subseteq> labels df \<times> labels df"
        using Cons.prems(2) assms(2) col by auto
      have seen': "set (seen @ [row @ column]) = (\<lambda>(a, b). a @ b) ` set ?R"
        using Cons.prems(3) by auto
      show ?thesis
        unfolding step using notin Cons.IH[OF cs R' seen']
        by (simp add: el edge_row_def edge_column_def)
    qed
  qed
qed

lemma concat_nonempty: "concat (if temp \<noteq> [] then vs @ [temp] else vs) = concat vs @ temp"
  by simp

lemma unique_rows_eq:
  assumes "unambiguous_labels df"
    and "set rs \<subseteq> labels df" and "set R \<subseteq> labels df \<times> labels df"
    and "set seen = (\<lambda>(a, b). a @ b) ` set R"
  shows "concat (unique_rows df rs vs seen)
           = concat vs @ first_of_pair (concat (map (incident_edges df) rs)) R"
  using assms(2-4)
proof (induction rs arbitrary: vs seen R)
  case Nil
  then show ?case by simp
next
  case (Cons row rs)
  have row: "row \<in> labels df" and rs: "set rs \<subseteq> labels df"
    using Cons.prems(1) by auto
  have cols: "set (df_columns df) \<subseteq> labels df"
    by (simp add: labels_def)
  obtain temp seen' where uc: "unique_columns df row (df_columns df) [] seen = (temp, seen')"
    by (cases "unique_columns df row (df_columns df) [] seen")
  from unique_columns_eq[OF assms(1) row cols Cons.prems(2,3), of "[]"] uc
  have temp: "temp = first_of_pair (incident_edges df row) R"
    and seen': "set seen' = (\<lambda>(a, b). a @ b) ` set (recorded_after (incident_edges df row) R)"
    and R': "set (recorded_after (incident_edges df row) R) \<subseteq> labels df \<times> labels df"
    by (simp_all add: incident_edges_def)
  have "concat (unique_rows df (row # rs) vs seen)
      = concat (unique_rows df rs (if temp \<noteq> [] then vs @ [temp] else vs) seen')"
    by (simp add: uc)
  also have "\<dots> = concat (if temp \<noteq> [] then vs @ [temp] else vs)
      @ first_of_pair (concat (map (incident_edges df) rs)) (recorded_after (incident_edges df row) R)"
    by (rule Cons.IH[OF rs R' seen'])
  also have "\<dots> = concat vs @ first_of_pair (concat (map (incident_edges df) (row # rs))) R"
    unfolding concat_nonempty by (simp add: temp first_of_pair_append)
  finally show ?case .
qed

lemma get_unique_nodes_eq:
  assumes "unambiguous_labels df"
  shows "concat (get_unique_nodes df)
           = first_of_pair (concat (map (incident_edges df) (df_index df))) []"
  using unique_rows_eq[OF assms, of "df_index df" "[]" "[]" "[]"]
  by (simp add: get_unique_nodes_def labels_def)

lemma same_length_unambiguous:
  "\<forall>a \<in> labels df. length a = n \<Longrightarrow> unambiguous_labels df"
  by (simp add: unambiguous_labels_def)

lemma frame_unambiguous: "unambiguous_labels (frame rows)"
  by (rule same_length_unambiguous[where n = 1])
    (simp add: labels_def frame_def vertices_name_def)

lemma incident_edges_cell:
  "r \<in> set (df_index df) \<Longrightarrow> c \<in> set (df_columns df) \<Longrightarrow> r \<noteq> c \<Longrightarrow> loc df r c \<noteq> 0
   \<Longrightarrow> (r, c, loc df r c) \<in> set (concat (map (incident_edges df) (df_index df)))"
  by (auto simp: incident_edges_def eligible_cells_def)

lemma incident_edges_set:
  "e \<in> set (concat (map (incident_edges df) (df_index df))) \<Longrightarrow>
   edge_row e \<in> set (df_index df) \<and> edge_column e \<in> set (df_columns df) \<and>
   edge_row e \<noteq> edge_column e \<and> edge_cost e = loc df (edge_row e) (edge_column e) \<and>
   edge_cost e \<noteq> 0"
  by (auto simp: incident_edges_def eligible_cells_def edge_row_def edge_column_def
      edge_cost_def)

text \<open>
  Let the labels of the table be unambiguous when written one after the other, as labels
  of one length are, the labels \<open>A\<close> to \<open>G\<close> of \<open>maximum_saving\<close> among them. Then the
  edges of \<open>get_unique_nodes\<close>, row after row, are the cells of the row-major scan that are
  off the diagonal and not zero, each kept unless its pair of vertices, in this or the
  other order, was kept before; so the order is that of the first encounters. Every edge
  of the result joins two different vertices at the non-zero cost of its cell. For every
  non-zero cell off the diagonal exactly one edge of the result joins its two vertices,
  and a pair of vertices without such a cell has none.
\<close>

theorem distinct_edges_once:
  assumes "unambiguous_labels df"
  shows "concat (get_unique_nodes df)
           = first_of_pair (concat (map (incident_edges df) (df_index df))) [] \<and>
         (\<forall>e \<in> set (concat (get_unique_nodes df)).
            edge_row e \<in> set (df_index df) \<and> edge_column e \<in> set (df_columns df) \<and>
            edge_row e \<noteq> edge_column e \<and>
            edge_cost e = loc df (edge_row e) (edge_column e) \<and> edge_cost e \<noteq> 0) \<and>
         (r \<in> set (df_index df) \<and> c \<in> set (df_columns df) \<and> r \<noteq> c \<and> loc df r c \<noteq> 0 \<longrightarrow>
            length (filter (same_pair r c) (concat (get_unique_nodes df))) = 1) \<and>
         ((\<forall>e \<in> set (concat (map (incident_edges df) (df_index df))). \<not> same_pair r c e) \<longrightarrow>
            length (filter (same_pair r c) (concat (get_unique_nodes df))) = 0)"
proof -
  let ?scan = "concat (map (incident_edges df) (df_index df))"
  have eq: "concat (get_unique_nodes df) = first_of_pair ?scan []"
    by (rule get_unique_nodes_eq[OF assms])
  have "\<forall>e \<in> set (first_of_pair ?scan []).
            edge_row e \<in> set (df_index df) \<and> edge_column e \<in> set (df_columns df) \<and>
            edge_row e \<noteq> edge_column e \<and>
            edge_cost e = loc df (edge_row e) (edge_column e) \<and> edge_cost e \<noteq> 0"
    using first_of_pair_subset[of ?scan "[]"] incident_edges_set[of _ df] by blast
  moreover have "length (filter (same_pair r c) (first_of_pair ?scan [])) = 1"
    if "r \<in> set (df_index df)" "c \<in> set (df_columns df)" "r \<noteq> c" "loc df r c \<noteq> 0"
  proof -
    have "same_pair r c (r, c, loc df r c)"
      by (simp add: same_pair_def edge_row_def edge_column_def)
    with incident_edges_cell[OF that] have "\<exists>e \<in> set ?scan. same_pair r c e"
      by blast
    then show ?thesis
      by (simp add: first_of_pair_count)
  qed
  moreover have "length (filter (same_pair r c) (first_of_pair ?scan [])) = 0"
    if "\<forall>e \<in> set ?scan. \<not> same_pair r c e"
    using that by (simp add: first_of_pair_count)
  ultimately show ?thesis
    unfolding eq by blast
qed

lemma scenario_first_of_pair:
  "first_of_pair (concat (map (incident_edges (frame scenario_rows))
       (df_index (frame scenario_rows)))) []
   = [(''A'', ''B'', 14), (''A'', ''C'', 10), (''A'', ''D'', 19), (''B'', ''D'', 15),
      (''B'', ''E'', 18), (''C'', ''D'', 26), (''C'', ''F'', 29), (''D'', ''E'', 16),
      (''D'', ''F'', 17), (''D'', ''G'', 21), (''E'', ''G'', 9), (''F'', ''G'', 25)]"
  by code_simp

lemma scenario_cell_D_A:
  "''D'' \<in> set (df_index (frame scenario_rows)) \<and> ''A'' \<in> set (df_columns (frame scenario_rows)) \<and>
   ''D'' \<noteq> ''A'' \<and> loc (frame scenario_rows) ''D'' ''A'' \<noteq> 0"
  by code_simp

theorem distinct_edges_once_witness:
  "(\<forall>rows. unambiguous_labels (frame rows)) \<and>
   concat (get_unique_nodes (frame scenario_rows))
     = [(''A'', ''B'', 14), (''A'', ''C'', 10), (''A'', ''D'', 19), (''B'', ''D'', 15),
        (''B'', ''E'', 18), (''C'', ''D'', 26), (''C'', ''F'', 29), (''D'', ''E'', 16),
        (''D'', ''F'', 17), (''D'', ''G'', 21), (''E'', ''G'', 9), (''F'', ''G'', 25)] \<and>
   length (filter (same_pair ''D'' ''A'') (concat (get_unique_nodes (frame scenario_rows)))) = 1"
proof -
  note main = distinct_edges_once[OF frame_unambiguous, of scenario_rows "''D''" "''A''"]
  from main have "concat (get_unique_nodes (frame scenario_rows))
      = first_of_pair (concat (map (incident_edges (frame scenario_rows))
          (df_index (frame scenario_rows)))) []"
    by blast
  then have edges: "concat (get_unique_nodes (frame scenario_rows))
     = [(''A'', ''B'', 14), (''A'', ''C'', 10), (''A'', ''D'', 19), (''B'', ''D'', 15),
        (''B'', ''E'', 18), (''C'', ''D'', 26), (''C'', ''F'', 29), (''D'', ''E'', 16),
        (''D'', ''F'', 17), (''D'', ''G'', 21), (''E'', ''G'', 9), (''F'', ''G'', 25)]"
    unfolding scenario_first_of_pair .
  from main scenario_cell_D_A
  have "length (filter (same_pair ''D'' ''A'')
      (concat (get_unique_nodes (frame scenario_rows)))) = 1"
    by blast
  with edges frame_unambiguous show ?thesis
    by blast
qed

text \<open>
  C2. The entries of \<open>seen\<close> are the two labels written one after the other, and two
  different pairs of labels can give the same entry. With the labels \<open>A\<close>, \<open>AB\<close>, \<open>B\<close>,
  \<open>BB\<close> the edge \<open>A-BB\<close> is recorded as \<open>ABB\<close>; the cell of \<open>AB\<close> and \<open>B\<close> holds the cost 2,
  but \<open>AB\<close> followed by \<open>B\<close> is \<open>ABB\<close> as well, so the edge \<open>AB-B\<close> is skipped in both
  rows where it stands and is missing from the result of \<open>get_unique_nodes\<close>.
\<close>

theorem ambiguous_labels_lose_edge:
  "wrangle four_text four_names = Inr four_frame \<and>
   loc four_frame ''AB'' ''B'' = 2 \<and> loc four_frame ''B'' ''AB'' = 2 \<and>
   get_unique_nodes four_frame = [[(''A'', ''BB'', 1)]] \<and>
   filter (same_pair ''AB'' ''B'') (concat (get_unique_nodes four_frame)) = []"
  by code_simp

section \<open>An isolated vertex with fewer than two edges\<close>
















text \<open>
  On the star the first isolated vertex \<open>A\<close> has no edge at all, and the vertices before it
  in label order do not all have an edge, namely \<open>A\<close> itself. The list read at the position
  of \<open>A\<close> is the list of \<open>B\<close>; its second edge \<open>B-D\<close> is appended in every round, \<open>A\<close>
  stays isolated, and the run never returns.
\<close>

lemma star_parsed: "wrangle star_text vertices_name = Inr (frame star_rows)"
  by code_simp

lemma star_get_nodes: "get_nodes (frame star_rows) = star_nodes"
  by code_simp

lemma star_candidates:
  "get_shortest_edges star_nodes = Inr
     [(''B'', ''C'', 1), (''C'', ''B'', 1), (''D'', ''B'', 2), (''E'', ''B'', 3),
      (''F'', ''B'', 4), (''G'', ''B'', 5)]"
  by code_simp

lemma star_unique:
  "find_unique_node
     [(''B'', ''C'', 1), (''C'', ''B'', 1), (''D'', ''B'', 2), (''E'', ''B'', 3),
      (''F'', ''B'', 4), (''G'', ''B'', 5)] = star_start"
  by code_simp

lemma connect_pass_replicate_known:
  "fst p \<in> set cn \<Longrightarrow> snd p \<in> set cn \<Longrightarrow> connect_pass (replicate k p) cn = cn"
  by (induction k) auto

lemma star_connected:
  "get_connected_nodes (star_start @ replicate k (''B'', ''D'', 2))
     = Inr [''B'', ''C'', ''D'', ''E'', ''F'', ''G'']"
  by (simp add: get_connected_nodes_def star_start_def connect_pass_append
      connect_pass_replicate_known edge_row_def edge_column_def del: replicate.simps)

lemma star_isolated:
  "filter (\<lambda>x. x \<notin> set [''B'', ''C'', ''D'', ''E'', ''F'', ''G'']) vertices_name = [''A'']"
  by code_simp

lemma star_forever:
  "isolated_loop vertices_name star_nodes (star_start @ replicate k (''B'', ''D'', 2)) [''A''] = None"
proof -
  have never: "\<not> (n = vertices_name \<and> v = star_nodes \<and> i = [''A''] \<and>
        (\<exists>k. s = star_start @ replicate k (''B'', ''D'', 2)))"
    if "isolated_loop n v s i = Some y" for n v s i y
  proof (rule isolated_loop.raw_induct[where P = "\<lambda>n v s i y.
        \<not> (n = vertices_name \<and> v = star_nodes \<and> i = [''A''] \<and>
        (\<exists>k. s = star_start @ replicate k (''B'', ''D'', 2)))", OF _ that])
    fix loop :: "string list \<Rightarrow> edge list list \<Rightarrow> edge list \<Rightarrow> string list \<Rightarrow> (stop + edge list) option"
    fix n v s i y
    assume IH: "\<And>n v s i y. loop n v s i = Some y \<Longrightarrow>
        \<not> (n = vertices_name \<and> v = star_nodes \<and> i = [''A''] \<and>
        (\<exists>k. s = star_start @ replicate k (''B'', ''D'', 2)))"
    assume body: "(if i = [] then Some (Inr s)
      else case list_index n (hd i) of Inl e \<Rightarrow> Some (Inl e)
           | Inr k \<Rightarrow>
               if k < length v \<and> 1 < length (v ! k)
               then case get_connected_nodes (s @ [v ! k ! 1]) of
                    Inl e \<Rightarrow> Some (Inl e)
                    | Inr connected_nodes \<Rightarrow>
                        loop n v (s @ [v ! k ! 1])
                         (filter (\<lambda>x. x \<notin> set connected_nodes) n)
               else Some (Inl (Raised IndexError))) = Some y"
    show "\<not> (n = vertices_name \<and> v = star_nodes \<and> i = [''A''] \<and>
        (\<exists>k. s = star_start @ replicate k (''B'', ''D'', 2)))"
    proof
      assume "n = vertices_name \<and> v = star_nodes \<and> i = [''A''] \<and>
        (\<exists>k. s = star_start @ replicate k (''B'', ''D'', 2))"
      then obtain k where s: "s = star_start @ replicate k (''B'', ''D'', 2)"
        and n: "n = vertices_name" and v: "v = star_nodes" and i: "i = [''A'']"
        by blast
      have idx: "list_index vertices_name ''A'' = Inr 0"
        by (simp add: list_index_def vertices_name_def)
      have edge: "star_nodes ! 0 ! 1 = (''B'', ''D'', 2)" "0 < length star_nodes"
          "1 < length (star_nodes ! 0)"
        by (simp_all add: star_nodes_def)
      have app: "(star_start @ replicate k (''B'', ''D'', 2)) @ [(''B'', ''D'', 2)]
          = star_start @ replicate (Suc k) (''B'', ''D'', 2)"
        by (simp add: replicate_append_same)
      from body have "loop vertices_name star_nodes
          (star_start @ replicate (Suc k) (''B'', ''D'', 2)) [''A''] = Some y"
        unfolding s n v i list.sel idx sum.case edge app star_connected star_isolated
        using edge by simp
      then show False
        using IH by blast
    qed
  qed
  show ?thesis
  proof (cases "isolated_loop vertices_name star_nodes
          (star_start @ replicate k (''B'', ''D'', 2)) [''A'']")
    case None
    then show ?thesis .
  next
    case (Some y)
    from never[OF Some] show ?thesis by blast
  qed
qed

theorem star_diverges:
  "wrangle star_text vertices_name = Inr (frame star_rows) \<and>
   incident_edges (frame star_rows) ''A'' = [] \<and>
   get_nodes (frame star_rows) = star_nodes \<and>
   get_connected_nodes star_start = Inr [''B'', ''C'', ''D'', ''E'', ''F'', ''G''] \<and>
   filter (\<lambda>x. x \<notin> set [''B'', ''C'', ''D'', ''E'', ''F'', ''G'']) vertices_name = [''A''] \<and>
   maximum_saving star_text = None"
proof -
  have loop: "isolated_loop vertices_name star_nodes star_start [''A''] = None"
    using star_forever[of 0] by simp
  have con: "get_connected_nodes star_start = Inr [''B'', ''C'', ''D'', ''E'', ''F'', ''G'']"
    using star_connected[of 0] by simp
  have "maximum_saving star_text = None"
    using loop
    by (simp add: maximum_saving_def star_parsed star_get_nodes star_candidates star_unique
        con star_isolated add_isolated_node_def del: set_simps)
  moreover have "incident_edges (frame star_rows) ''A'' = []"
    by code_simp
  ultimately show ?thesis
    using star_parsed star_get_nodes con star_isolated by simp
qed

section \<open>What parsing returns and raises\<close>

lemma cell_value_error:
  "cell_value t = Inl e \<Longrightarrow>
   e = Raised (ValueError_literal t) \<or> (\<exists>n. 4300 < n \<and> e = Raised (ValueError_digit_limit n))"
  by (auto simp: cell_value_def texttoint_def py_int_def Let_def max_str_digits_def
      split: if_splits prod.splits)

lemma find_append:
  "find P (xs @ ys) = (case find P xs of None \<Rightarrow> find P ys | Some x \<Rightarrow> Some x)"
  by (induction xs) auto

lemma parse_line_find:
  "parse_line line =
     (case find (\<lambda>t. isl (cell_value t)) line of
        Some t \<Rightarrow> Inl (projl (cell_value t))
      | None \<Rightarrow> Inr (map (\<lambda>t. projr (cell_value t)) line))"
proof (induction line)
  case Nil
  then show ?case by simp
next
  case (Cons t rest)
  show ?case
  proof (cases "cell_value t")
    case (Inl e)
    then show ?thesis by simp
  next
    case (Inr v)
    then show ?thesis
      using Cons.IH by (simp split: option.splits)
  qed
qed

lemma parse_lines_find:
  "parse_lines ls =
     (case find (\<lambda>t. isl (cell_value t)) (concat ls) of
        Some t \<Rightarrow> Inl (projl (cell_value t))
      | None \<Rightarrow> Inr (map (map (\<lambda>t. projr (cell_value t))) ls))"
  by (induction ls) (auto simp: parse_line_find find_append split: option.splits)

lemma fold_max_init: "(a::nat) \<le> fold max xs a"
proof (induction xs arbitrary: a)
  case Nil
  then show ?case by simp
next
  case (Cons x xs)
  have "a \<le> max x a" by simp
  also have "\<dots> \<le> fold max xs (max x a)" by (rule Cons.IH)
  finally show ?case by simp
qed

lemma fold_max_ge: "x \<in> set xs \<Longrightarrow> (x::nat) \<le> fold max xs a"
proof (induction xs arbitrary: a)
  case Nil
  then show ?case by simp
next
  case (Cons y ys)
  show ?case
  proof (cases "x = y")
    case True
    have "x \<le> max y a" using True by simp
    also have "\<dots> \<le> fold max ys (max y a)" by (rule fold_max_init)
    finally show ?thesis by simp
  next
    case False
    with Cons.prems have "x \<in> set ys" by simp
    from Cons.IH[OF this] show ?thesis by simp
  qed
qed

lemma fold_max_in: "fold max xs (a::nat) = a \<or> fold max xs a \<in> set xs"
proof (induction xs arbitrary: a)
  case Nil
  then show ?case by simp
next
  case (Cons y ys)
  from Cons.IH[of "max y a"] show ?case
    by (auto simp: max_def split: if_splits)
qed

lemma DataFrame_shape_error:
  assumes "rows \<noteq> []"
    and "length rows \<noteq> length idx \<or> (\<exists>r \<in> set rows. length cols < length r) \<or>
         (\<forall>r \<in> set rows. length r < length cols)"
  shows "DataFrame rows idx cols = Inl (Raised ValueError_shape)"
proof -
  have "fold max (map length rows) 0 \<noteq> length cols"
    if "\<exists>r \<in> set rows. length cols < length r"
  proof -
    from that obtain r where "r \<in> set rows" "length cols < length r" by blast
    then have "length r \<le> fold max (map length rows) 0"
      by (intro fold_max_ge) simp
    with \<open>length cols < length r\<close> show ?thesis by simp
  qed
  moreover have "fold max (map length rows) 0 \<noteq> length cols"
    if all: "\<forall>r \<in> set rows. length r < length cols"
  proof -
    from assms(1) all have "0 < length cols"
      by (cases rows) auto
    with fold_max_in[of "map length rows" 0] all show ?thesis
      by auto
  qed
  ultimately show ?thesis
    using assms by (auto simp: DataFrame_def)
qed

lemma fold_max_widest:
  assumes "r \<in> set rows" and "length r = n" and "\<forall>r \<in> set rows. length r \<le> n"
  shows "fold max (map length rows) 0 = n"
proof -
  have "n \<le> fold max (map length rows) 0"
    using assms(1,2) by (intro fold_max_ge) auto
  moreover have "fold max (map length rows) 0 \<le> n"
    using fold_max_in[of "map length rows" 0] assms(3) by auto
  ultimately show ?thesis
    by simp
qed

lemma DataFrame_full:
  assumes "length rows = length names"
    and "\<forall>r \<in> set rows. length r = length names \<and> (\<forall>v \<in> set r. in_int64 v)"
  shows "DataFrame rows names names
           = Inr \<lparr>df_index = names, df_columns = names, df_values = rows\<rparr>"
proof (cases "rows = []")
  case True
  with assms(1) show ?thesis
    by (simp add: DataFrame_def)
next
  case False
  then obtain r where r: "r \<in> set rows"
    by (cases rows) auto
  with assms(2) have "fold max (map length rows) 0 = length names"
    by (intro fold_max_widest[of r]) auto
  with False assms show ?thesis
    by (simp add: DataFrame_def list_all_iff)
qed

lemma DataFrame_not_int64:
  assumes "length rows = length names"
    and "\<forall>r \<in> set rows. length r \<le> length names"
    and "\<exists>r \<in> set rows. length r = length names"
    and "(\<exists>r \<in> set rows. length r < length names) \<or> (\<exists>r \<in> set rows. \<exists>v \<in> set r. \<not> in_int64 v)"
  shows "DataFrame rows names names = Inl (Not_int64 (map (pad_row (length names)) rows))"
proof -
  from assms(3) obtain r where r: "r \<in> set rows" "length r = length names"
    by blast
  then have "rows \<noteq> []"
    by auto
  moreover have "fold max (map length rows) 0 = length names"
    using r assms(2) by (intro fold_max_widest[of r]) auto
  moreover have "\<not> list_all (\<lambda>r. length r = length names \<and> list_all in_int64 r) rows"
  proof
    assume "list_all (\<lambda>r. length r = length names \<and> list_all in_int64 r) rows"
    then have "\<forall>r \<in> set rows. length r = length names \<and> (\<forall>v \<in> set r. in_int64 v)"
      by (simp add: list_all_iff)
    with assms(4) show False
      by fastforce
  qed
  ultimately show ?thesis
    using assms(1) by (simp add: DataFrame_def)
qed


lemma wrangle_eq:
  "wrangle text names =
     (case find (\<lambda>t. isl (cell_value t)) (concat (map split_comma (splitlines text))) of
        Some t \<Rightarrow> Inl (projl (cell_value t))
      | None \<Rightarrow> DataFrame (map (map (\<lambda>t. projr (cell_value t))) (map split_comma (splitlines text)))
                  names names)"
  by (simp add: wrangle_def parse_lines_find split: option.splits)


text \<open>
  C7, as the program has it. A token that is empty or the marker \<open>-\<close> has the weight 0.
  When some token is refused by \<open>int\<close>, \<open>wrangle\<close> raises the \<open>ValueError\<close> of the first
  such token in reading order and builds no table; the exception carries the token, or the
  number of its digits when there are more than 4300, and neither its row nor its column.
  When every token is accepted and the text has a line: a number of lines other than the
  number of labels, a line with more cells than there are labels, or no line with as many
  cells as there are labels makes the table constructor raise \<open>ValueError\<close>. With as many
  lines as labels, every line of as many cells as labels and every weight in the 64-bit
  range, the table of the weights is returned. With as many lines as labels, no line too
  long, some line of full length and some line too short, nothing is raised: the library
  returns the table with the missing cells filled with NaN.
\<close>

theorem wrangle_outcomes:
  "cell_value [] = Inr 0 \<and> cell_value ''-'' = Inr 0 \<and>
   (find (\<lambda>t. isl (cell_value t)) (concat (map split_comma (splitlines text))) = Some t \<longrightarrow>
      wrangle text names = Inl (projl (cell_value t)) \<and>
      (projl (cell_value t) = Raised (ValueError_literal t) \<or>
       (\<exists>n. 4300 < n \<and> projl (cell_value t) = Raised (ValueError_digit_limit n)))) \<and>
   (find (\<lambda>t. isl (cell_value t)) (concat (map split_comma (splitlines text))) = None \<and>
    splitlines text \<noteq> [] \<and>
    (length (splitlines text) \<noteq> length names \<or>
     (\<exists>line \<in> set (splitlines text). length names < length (split_comma line)) \<or>
     (\<forall>line \<in> set (splitlines text). length (split_comma line) < length names)) \<longrightarrow>
      wrangle text names = Inl (Raised ValueError_shape)) \<and>
   (find (\<lambda>t. isl (cell_value t)) (concat (map split_comma (splitlines text))) = None \<and>
    length (splitlines text) = length names \<and>
    (\<forall>line \<in> set (splitlines text).
       length (split_comma line) = length names \<and>
       (\<forall>t \<in> set (split_comma line). in_int64 (projr (cell_value t)))) \<longrightarrow>
      wrangle text names =
        Inr \<lparr>df_index = names, df_columns = names,
             df_values = map (map (\<lambda>t. projr (cell_value t))) (map split_comma (splitlines text))\<rparr>) \<and>
   (find (\<lambda>t. isl (cell_value t)) (concat (map split_comma (splitlines text))) = None \<and>
    length (splitlines text) = length names \<and>
    (\<forall>line \<in> set (splitlines text). length (split_comma line) \<le> length names) \<and>
    (\<exists>line \<in> set (splitlines text). length (split_comma line) = length names) \<and>
    (\<exists>line \<in> set (splitlines text). length (split_comma line) < length names) \<longrightarrow>
      wrangle text names =
        Inl (Not_int64 (map (pad_row (length names))
               (map (map (\<lambda>t. projr (cell_value t))) (map split_comma (splitlines text))))))"
proof (intro conjI impI)
  let ?toks = "map split_comma (splitlines text)"
  let ?rows = "map (map (\<lambda>t. projr (cell_value t))) ?toks"
  show "cell_value [] = Inr 0" "cell_value ''-'' = Inr 0"
    by (simp_all add: cell_value_def texttoint_def)
  {
    assume bad: "find (\<lambda>t. isl (cell_value t)) (concat ?toks) = Some t"
    then show "wrangle text names = Inl (projl (cell_value t))"
      by (simp add: wrangle_eq)
    from bad have "isl (cell_value t)"
      by (auto simp: find_Some_iff)
    then obtain e where "cell_value t = Inl e"
      by (cases "cell_value t") auto
    with cell_value_error[OF this]
    show "projl (cell_value t) = Raised (ValueError_literal t) \<or>
       (\<exists>n. 4300 < n \<and> projl (cell_value t) = Raised (ValueError_digit_limit n))"
      by simp
  }
  {
    assume a: "find (\<lambda>t. isl (cell_value t)) (concat ?toks) = None \<and>
      splitlines text \<noteq> [] \<and>
      (length (splitlines text) \<noteq> length names \<or>
       (\<exists>line \<in> set (splitlines text). length names < length (split_comma line)) \<or>
       (\<forall>line \<in> set (splitlines text). length (split_comma line) < length names))"
    then have "?rows \<noteq> []" by simp
    moreover have "length ?rows \<noteq> length names \<or> (\<exists>r \<in> set ?rows. length names < length r) \<or>
         (\<forall>r \<in> set ?rows. length r < length names)"
      using a by auto
    ultimately have "DataFrame ?rows names names = Inl (Raised ValueError_shape)"
      by (rule DataFrame_shape_error)
    with a show "wrangle text names = Inl (Raised ValueError_shape)"
      by (simp add: wrangle_eq)
  }
  {
    assume a: "find (\<lambda>t. isl (cell_value t)) (concat ?toks) = None \<and>
      length (splitlines text) = length names \<and>
      (\<forall>line \<in> set (splitlines text).
         length (split_comma line) = length names \<and>
         (\<forall>t \<in> set (split_comma line). in_int64 (projr (cell_value t))))"
    then have "length ?rows = length names"
      and "\<forall>r \<in> set ?rows. length r = length names \<and> (\<forall>v \<in> set r. in_int64 v)"
      by auto
    then have "DataFrame ?rows names names
        = Inr \<lparr>df_index = names, df_columns = names, df_values = ?rows\<rparr>"
      by (rule DataFrame_full)
    with a show "wrangle text names =
        Inr \<lparr>df_index = names, df_columns = names, df_values = ?rows\<rparr>"
      by (simp add: wrangle_eq)
  }
  {
    assume a: "find (\<lambda>t. isl (cell_value t)) (concat ?toks) = None \<and>
      length (splitlines text) = length names \<and>
      (\<forall>line \<in> set (splitlines text). length (split_comma line) \<le> length names) \<and>
      (\<exists>line \<in> set (splitlines text). length (split_comma line) = length names) \<and>
      (\<exists>line \<in> set (splitlines text). length (split_comma line) < length names)"
    then have "length ?rows = length names"
      and "\<forall>r \<in> set ?rows. length r \<le> length names"
      and "\<exists>r \<in> set ?rows. length r = length names"
      and "(\<exists>r \<in> set ?rows. length r < length names) \<or>
           (\<exists>r \<in> set ?rows. \<exists>v \<in> set r. \<not> in_int64 v)"
      by auto
    then have "DataFrame ?rows names names = Inl (Not_int64 (map (pad_row (length names)) ?rows))"
      by (rule DataFrame_not_int64)
    with a show "wrangle text names = Inl (Not_int64 (map (pad_row (length names)) ?rows))"
      by (simp add: wrangle_eq)
  }
qed


lemma x_refused: "cell_value ''x'' = Inl (Raised (ValueError_literal ''x''))"
  by code_simp

lemma first_bad_row_token:
  "find (\<lambda>t. isl (cell_value t)) (concat (map split_comma (splitlines first_bad_row_text)))
     = Some ''x''"
  by code_simp

lemma two_vertex_tokens:
  "find (\<lambda>t. isl (cell_value t)) (concat (map split_comma (splitlines two_vertex_text))) = None \<and>
   splitlines two_vertex_text \<noteq> [] \<and>
   length (splitlines two_vertex_text) \<noteq> length vertices_name"
  by code_simp

lemma scenario_tokens:
  "find (\<lambda>t. isl (cell_value t)) (concat (map split_comma (splitlines scenario_text))) = None \<and>
   length (splitlines scenario_text) = length vertices_name \<and>
   (\<forall>line \<in> set (splitlines scenario_text).
      length (split_comma line) = length vertices_name \<and>
      (\<forall>t \<in> set (split_comma line). in_int64 (projr (cell_value t))))"
  by code_simp

lemma ragged_tokens:
  "find (\<lambda>t. isl (cell_value t)) (concat (map split_comma (splitlines ragged_text))) = None \<and>
   length (splitlines ragged_text) = length vertices_name \<and>
   (\<forall>line \<in> set (splitlines ragged_text). length (split_comma line) \<le> length vertices_name) \<and>
   (\<exists>line \<in> set (splitlines ragged_text). length (split_comma line) = length vertices_name) \<and>
   (\<exists>line \<in> set (splitlines ragged_text). length (split_comma line) < length vertices_name)"
  by code_simp

theorem wrangle_outcomes_witness:
  "wrangle first_bad_row_text vertices_name = Inl (Raised (ValueError_literal ''x'')) \<and>
   wrangle two_vertex_text vertices_name = Inl (Raised ValueError_shape) \<and>
   wrangle scenario_text vertices_name =
     Inr \<lparr>df_index = vertices_name, df_columns = vertices_name,
          df_values = map (map (\<lambda>t. projr (cell_value t)))
                        (map split_comma (splitlines scenario_text))\<rparr> \<and>
   wrangle ragged_text vertices_name =
     Inl (Not_int64 (map (pad_row (length vertices_name))
            (map (map (\<lambda>t. projr (cell_value t)))
               (map split_comma (splitlines ragged_text)))))"
proof -
  have "wrangle first_bad_row_text vertices_name = Inl (Raised (ValueError_literal ''x''))"
    using wrangle_outcomes[of first_bad_row_text "''x''" vertices_name] first_bad_row_token
    by (simp add: x_refused)
  moreover have "wrangle two_vertex_text vertices_name = Inl (Raised ValueError_shape)"
    using wrangle_outcomes[of two_vertex_text _ vertices_name] two_vertex_tokens
    by blast
  moreover have "wrangle scenario_text vertices_name =
     Inr \<lparr>df_index = vertices_name, df_columns = vertices_name,
          df_values = map (map (\<lambda>t. projr (cell_value t)))
                        (map split_comma (splitlines scenario_text))\<rparr>"
    using wrangle_outcomes[of scenario_text _ vertices_name] scenario_tokens
    by blast
  moreover have "wrangle ragged_text vertices_name =
     Inl (Not_int64 (map (pad_row (length vertices_name))
            (map (map (\<lambda>t. projr (cell_value t)))
               (map split_comma (splitlines ragged_text)))))"
    using wrangle_outcomes[of ragged_text _ vertices_name] ragged_tokens
    by blast
  ultimately show ?thesis
    by blast
qed

text \<open>
  The same refused token in two different cells gives the same exception: what is raised
  does not tell the cell. And the text whose last line has six cells is not refused: the
  table that comes back has NaN in the last cell of that line.
\<close>

theorem parse_failure_names_no_cell:
  "map split_comma (splitlines first_bad_row_text) ! 0 ! 1 = ''x'' \<and>
   map split_comma (splitlines fourth_bad_row_text) ! 3 ! 5 = ''x'' \<and>
   wrangle first_bad_row_text vertices_name = Inl (Raised (ValueError_literal ''x'')) \<and>
   wrangle fourth_bad_row_text vertices_name = Inl (Raised (ValueError_literal ''x'')) \<and>
   map length (map split_comma (splitlines ragged_text)) = [7, 7, 7, 7, 7, 7, 6] \<and>
   wrangle ragged_text vertices_name =
     Inl (Not_int64
       [[Some 0, Some 14, Some 10, Some 19, Some 0, Some 0, Some 0],
        [Some 14, Some 0, Some 0, Some 15, Some 18, Some 0, Some 0],
        [Some 10, Some 0, Some 0, Some 26, Some 0, Some 29, Some 0],
        [Some 19, Some 15, Some 26, Some 0, Some 16, Some 17, Some 21],
        [Some 0, Some 18, Some 0, Some 16, Some 0, Some 0, Some 9],
        [Some 0, Some 0, Some 29, Some 17, Some 0, Some 0, Some 25],
        [Some 0, Some 0, Some 0, Some 21, Some 9, Some 25, None]])"
  by code_simp

section \<open>The labels of the orchestrator\<close>









end
